theory Spec2Isabelle
  imports Complex_Main "HOL-Library.AList" "HOL-Library.Char_ord" "HOL-Library.List_Lexorder"
begin

section \<open>Python values, dictionaries and exceptions\<close>

text \<open>
  The publication records of \<^verbatim>\<open>fetch_author_publications.py\<close> are Python dictionaries
  from field names to scalars: strings built by the normalizer, and whatever JSON scalars
  the iCite service returned for the citation fields (numbers, \<^verbatim>\<open>null\<close>, strings).
  Floating-point numbers are kept abstract: the type \<open>'f\<close> stands for Python's \<^verbatim>\<open>float\<close>
  and every operation on it is taken from a record of numeric primitives, so that nothing
  proved below depends on rounding. JSON arrays and objects as field values are outside
  the model.
\<close>

datatype 'f pyval = PNone | PBool bool | PInt int | PFloat 'f | PStr string

text \<open>
  A dictionary is an association list in insertion order, as a Python \<^verbatim>\<open>dict\<close> is:
  \<^verbatim>\<open>d[k] = v\<close> replaces the value of an existing key in place and appends a new key.
\<close>

type_synonym 'f pydict = "(string \<times> 'f pyval) list"

definition py_get :: "'f pydict \<Rightarrow> string \<Rightarrow> 'f pyval \<Rightarrow> 'f pyval" where
  \<comment> \<open>\<^verbatim>\<open>d.get(k, default)\<close>\<close>
  "py_get d k dflt = (case map_of d k of None \<Rightarrow> dflt | Some v \<Rightarrow> v)"

definition py_set :: "string \<Rightarrow> 'f pyval \<Rightarrow> 'f pydict \<Rightarrow> 'f pydict" where
  \<comment> \<open>\<^verbatim>\<open>d[k] = v\<close>\<close>
  "py_set k v d = AList.update k v d"

definition py_in :: "string \<Rightarrow> 'f pydict \<Rightarrow> bool" where
  \<comment> \<open>\<^verbatim>\<open>k in d\<close>\<close>
  "py_in k d = (map_of d k \<noteq> None)"

datatype exn = KeyError string | IndexError | TypeError | ValueError | RemoteError string

text \<open>
  The numeric primitives of the Python runtime that the code calls. \<open>None\<close> is a raised
  exception (\<^verbatim>\<open>ValueError\<close>, \<^verbatim>\<open>OverflowError\<close>, \<^verbatim>\<open>ZeroDivisionError\<close>).
  \<open>literal_1_5\<close> is the float that the literal \<^verbatim>\<open>1.5\<close> of line 293 denotes; which float
  that is lies with the runtime, like every other primitive here.
\<close>

record 'f numerics =
  float_nonzero :: "'f \<Rightarrow> bool"
  float_of_int :: "int \<Rightarrow> 'f option"
  float_of_str :: "string \<Rightarrow> 'f option"
  int_of_float :: "'f \<Rightarrow> int option"
  int_of_str :: "string \<Rightarrow> int option"
  int_truediv :: "int \<Rightarrow> int \<Rightarrow> 'f option"
  float_truediv :: "'f \<Rightarrow> 'f \<Rightarrow> 'f option"
  float_add :: "'f \<Rightarrow> 'f \<Rightarrow> 'f"
  float_repr :: "'f \<Rightarrow> string"
  literal_1_5 :: "'f"

fun py_truthy :: "'f numerics \<Rightarrow> 'f pyval \<Rightarrow> bool" where
  "py_truthy F PNone = False"
| "py_truthy F (PBool b) = b"
| "py_truthy F (PInt n) = (n \<noteq> 0)"
| "py_truthy F (PFloat x) = float_nonzero F x"
| "py_truthy F (PStr s) = (s \<noteq> [])"

definition int_of_bool :: "bool \<Rightarrow> int" where
  "int_of_bool b = (if b then 1 else 0)"

fun py_int :: "'f numerics \<Rightarrow> 'f pyval \<Rightarrow> int option" where
  \<comment> \<open>\<^verbatim>\<open>int(v)\<close>\<close>
  "py_int F PNone = None"
| "py_int F (PBool b) = Some (int_of_bool b)"
| "py_int F (PInt n) = Some n"
| "py_int F (PFloat x) = int_of_float F x"
| "py_int F (PStr s) = int_of_str F s"

fun py_float :: "'f numerics \<Rightarrow> 'f pyval \<Rightarrow> 'f option" where
  \<comment> \<open>\<^verbatim>\<open>float(v)\<close>\<close>
  "py_float F PNone = None"
| "py_float F (PBool b) = float_of_int F (int_of_bool b)"
| "py_float F (PInt n) = float_of_int F n"
| "py_float F (PFloat x) = Some x"
| "py_float F (PStr s) = float_of_str F s"

fun py_truediv :: "'f numerics \<Rightarrow> 'f pyval \<Rightarrow> int \<Rightarrow> 'f pyval option" where
  \<comment> \<open>\<^verbatim>\<open>v / d\<close> for an integer \<open>d\<close>\<close>
  "py_truediv F PNone d = None"
| "py_truediv F (PBool b) d = map_option PFloat (int_truediv F (int_of_bool b) d)"
| "py_truediv F (PInt n) d = map_option PFloat (int_truediv F n d)"
| "py_truediv F (PFloat x) d =
     (case float_of_int F d of None \<Rightarrow> None
      | Some y \<Rightarrow> map_option PFloat (float_truediv F x y))"
| "py_truediv F (PStr s) d = None"

fun py_add_one :: "'f numerics \<Rightarrow> 'f pyval \<Rightarrow> 'f pyval option" where
  \<comment> \<open>\<^verbatim>\<open>v + 1\<close>\<close>
  "py_add_one F PNone = None"
| "py_add_one F (PBool b) = Some (PInt (int_of_bool b + 1))"
| "py_add_one F (PInt n) = Some (PInt (n + 1))"
| "py_add_one F (PFloat x) =
     (case float_of_int F 1 of None \<Rightarrow> None | Some y \<Rightarrow> Some (PFloat (float_add F x y)))"
| "py_add_one F (PStr s) = None"

section \<open>The metric imputer\<close>

text \<open>
  \<^verbatim>\<open>compute_imputed_metrics\<close>, lines 272-294. \<open>now_year\<close> is \<^verbatim>\<open>datetime.now().year\<close>,
  taken as constant during one call. The two bare \<^verbatim>\<open>except:\<close> clauses turn every
  exception of their \<^verbatim>\<open>try\<close> block into the fallback value.
\<close>

definition imputed_value :: "'f numerics \<Rightarrow> int \<Rightarrow> 'f pydict \<Rightarrow> 'f pyval" where
  "imputed_value F now_year pub =
     (let rcr = py_get pub ''RCR'' PNone in
      if \<not> py_truthy F rcr \<or> rcr = PStr '''' then
        (let year = py_get pub ''Year'' (PStr '''');
             citations = py_get pub ''Citation_Count'' (PInt 0)
         in if py_truthy F year \<and> py_truthy F citations then
              (case py_int F year of
                 None \<Rightarrow> PInt 0
               | Some y \<Rightarrow>
                   (let years_since = now_year - y
                    in if years_since > 0 then
                         (case py_truediv F citations years_since of
                            None \<Rightarrow> PInt 0 | Some v \<Rightarrow> v)
                       else
                         (case py_add_one F citations of
                            None \<Rightarrow> PInt 0 | Some v \<Rightarrow> v)))
            else PInt 0)
      else
        (case py_float F rcr of
           None \<Rightarrow> PFloat (literal_1_5 F)
         | Some x \<Rightarrow> PFloat x))"

definition compute_imputed_metrics ::
    "'f numerics \<Rightarrow> int \<Rightarrow> 'f pydict list \<Rightarrow> 'f pydict list" where
  "compute_imputed_metrics F now_year publications =
     map (\<lambda>pub. py_set ''RCR_imputed'' (imputed_value F now_year pub) pub) publications"

section \<open>Strings\<close>

text \<open>
  Strings are byte strings here; whitespace and letter case are those of ASCII (the
  whitespace of \<^verbatim>\<open>str.split\<close> and \<^verbatim>\<open>str.strip\<close> without arguments includes the
  separators \<^verbatim>\<open>\x1c\<close> to \<^verbatim>\<open>\x1f\<close>). On ASCII text \<open>py_split\<close>, \<open>py_strip\<close> and
  \<open>py_upper\<close> are the methods of Python; on text with other whitespace (such as U+00A0)
  or other cased letters the methods of Python split, strip and map more than these do.
  The general theorems below use \<open>py_isspace\<close> and \<open>upper_char\<close> only as some fixed
  predicate and some fixed mapping; only the worked examples, all ASCII, evaluate them.
\<close>

definition py_isspace :: "char \<Rightarrow> bool" where
  "py_isspace c = (let n = (of_char c :: nat) in (9 \<le> n \<and> n \<le> 13) \<or> (28 \<le> n \<and> n \<le> 32))"

fun split_ws :: "string \<Rightarrow> string \<Rightarrow> string list" where
  "split_ws cur [] = (if cur = [] then [] else [cur])"
| "split_ws cur (c # cs) =
     (if py_isspace c then (if cur = [] then split_ws [] cs else cur # split_ws [] cs)
      else split_ws (cur @ [c]) cs)"

definition py_split :: "string \<Rightarrow> string list" where
  \<comment> \<open>\<^verbatim>\<open>s.split()\<close>\<close>
  "py_split s = split_ws [] s"

definition py_strip :: "string \<Rightarrow> string" where
  \<comment> \<open>\<^verbatim>\<open>s.strip()\<close>\<close>
  "py_strip s = rev (dropWhile py_isspace (rev (dropWhile py_isspace s)))"

definition upper_char :: "char \<Rightarrow> char" where
  "upper_char c =
     (case map_of (zip ''abcdefghijklmnopqrstuvwxyz'' ''ABCDEFGHIJKLMNOPQRSTUVWXYZ'') c of
        None \<Rightarrow> c | Some u \<Rightarrow> u)"

definition py_upper :: "string \<Rightarrow> string" where
  \<comment> \<open>\<^verbatim>\<open>s.upper()\<close>\<close>
  "py_upper s = map upper_char s"

fun py_join :: "string \<Rightarrow> string list \<Rightarrow> string" where
  \<comment> \<open>\<^verbatim>\<open>sep.join(xs)\<close>\<close>
  "py_join sep [] = []"
| "py_join sep [x] = x"
| "py_join sep (x # y # ys) = x @ sep @ py_join sep (y # ys)"

definition digit_char :: "nat \<Rightarrow> char" where
  "digit_char d = ''0123456789'' ! d"

fun str_of_nat :: "nat \<Rightarrow> string" where
  "str_of_nat n =
     (if n < 10 then [digit_char n] else str_of_nat (n div 10) @ [digit_char (n mod 10)])"

declare str_of_nat.simps [simp del]

definition str_of_int :: "int \<Rightarrow> string" where
  \<comment> \<open>\<^verbatim>\<open>str(n)\<close> for an integer\<close>
  "str_of_int n = (if n < 0 then CHR ''-'' # str_of_nat (nat (- n)) else str_of_nat (nat n))"

fun py_str :: "'f numerics \<Rightarrow> 'f pyval \<Rightarrow> string" where
  \<comment> \<open>\<^verbatim>\<open>str(v)\<close>\<close>
  "py_str F PNone = ''None''"
| "py_str F (PBool b) = (if b then ''True'' else ''False'')"
| "py_str F (PInt n) = str_of_int n"
| "py_str F (PFloat x) = float_repr F x"
| "py_str F (PStr s) = s"

section \<open>The citation enricher\<close>

text \<open>
  \<^verbatim>\<open>fetch_citation_counts\<close>, lines 169-235. One call of the iCite service either raises
  inside the \<^verbatim>\<open>try\<close> block before any publication is written (\<^verbatim>\<open>requests.get\<close> fails,
  or the body of a 200 reply cannot be decoded or walked), or yields a status code and
  the JSON objects of the \<^verbatim>\<open>data\<close> array of the body (the empty list when the key is
  missing, as \<^verbatim>\<open>data.get("data", [])\<close> has it). Every publication is updated from its
  own fields and the reply only, so updating the list position by position gives what the
  in-place updates give, also when one dictionary occurs at several positions.
\<close>

datatype 'f icite_response = Raised | Status int "'f pydict list"

record 'f cite_data =
  citation_count :: "'f pyval"
  relative_citation_ratio :: "'f pyval"
  field_citation_rate :: "'f pyval"

definition cite_data_of :: "'f pydict \<Rightarrow> 'f cite_data" where
  "cite_data_of item =
     \<lparr> citation_count = py_get item ''citation_count'' (PInt 0),
       relative_citation_ratio = py_get item ''relative_citation_ratio'' (PStr ''''),
       field_citation_rate = py_get item ''field_citation_rate'' (PStr '''') \<rparr>"

definition item_pmid :: "'f numerics \<Rightarrow> 'f pydict \<Rightarrow> string" where
  \<comment> \<open>\<^verbatim>\<open>str(item.get("pmid", ""))\<close>\<close>
  "item_pmid F item = py_str F (py_get item ''pmid'' (PStr ''''))"

definition build_citation_map ::
    "'f numerics \<Rightarrow> 'f pydict list \<Rightarrow> (string \<times> 'f cite_data) list" where
  "build_citation_map F items =
     fold (\<lambda>item m. AList.update (item_pmid F item) (cite_data_of item) m) items []"

definition set_citation_fields ::
    "'f pyval \<Rightarrow> 'f pyval \<Rightarrow> 'f pyval \<Rightarrow> 'f pydict \<Rightarrow> 'f pydict" where
  "set_citation_fields c r f pub =
     py_set ''Field_Citation_Rate'' f (py_set ''RCR'' r (py_set ''Citation_Count'' c pub))"

definition lookup_pmid :: "(string \<times> 'a) list \<Rightarrow> 'f pyval option \<Rightarrow> 'a option" where
  \<comment> \<open>\<^verbatim>\<open>pub["PMID"] in citation_map\<close> and the lookup: the keys of the map are strings, so
      only a string is found in it; a publication without \<^verbatim>\<open>PMID\<close> does not get here, line
      179 has raised for it\<close>
  "lookup_pmid m v = (case v of Some (PStr s) \<Rightarrow> map_of m s | _ \<Rightarrow> None)"

definition apply_citation :: "(string \<times> 'f cite_data) list \<Rightarrow> 'f pydict \<Rightarrow> 'f pydict" where
  \<comment> \<open>lines 204-212, the body of the update loop of a successful call\<close>
  "apply_citation citation_map pub =
     (case lookup_pmid citation_map (map_of pub ''PMID'') of
        Some cd \<Rightarrow>
          set_citation_fields (citation_count cd) (relative_citation_ratio cd)
            (field_citation_rate cd) pub
      | None \<Rightarrow> set_citation_fields (PStr '''') (PStr '''') (PStr '''') pub)"

definition add_empty_citation :: "'f pydict \<Rightarrow> 'f pydict" where
  \<comment> \<open>lines 219-222 and 230-233, the body of the loops of a failed call\<close>
  "add_empty_citation pub =
     (if \<not> py_in ''Citation_Count'' pub
      then set_citation_fields (PStr '''') (PStr '''') (PStr '''') pub
      else pub)"

definition enrich_batch ::
    "'f numerics \<Rightarrow> 'f icite_response \<Rightarrow> 'f pydict list \<Rightarrow> 'f pydict list" where
  "enrich_batch F response publications =
     (case response of
        Status code items \<Rightarrow>
          if code = 200 then map (apply_citation (build_citation_map F items)) publications
          else map add_empty_citation publications
      | Raised \<Rightarrow> map add_empty_citation publications)"

fun pmids_of :: "'f pydict list \<Rightarrow> 'f pyval list option" where
  \<comment> \<open>\<^verbatim>\<open>[p["PMID"] for p in publications]\<close>; \<open>None\<close> is the \<^verbatim>\<open>KeyError\<close>\<close>
  "pmids_of [] = Some []"
| "pmids_of (p # ps) =
     (case map_of p ''PMID'' of
        None \<Rightarrow> None
      | Some v \<Rightarrow> map_option ((#) v) (pmids_of ps))"

fun strings_of :: "'f pyval list \<Rightarrow> string list option" where
  \<comment> \<open>what \<^verbatim>\<open>",".join\<close> accepts; \<open>None\<close> is its \<^verbatim>\<open>TypeError\<close> on an item that is no string\<close>
  "strings_of [] = Some []"
| "strings_of (PStr s # vs) = map_option ((#) s) (strings_of vs)"
| "strings_of (_ # vs) = None"

definition py_range_step :: "nat \<Rightarrow> nat \<Rightarrow> nat list" where
  \<comment> \<open>\<^verbatim>\<open>range(0, n, step)\<close>\<close>
  "py_range_step n step = map (\<lambda>k. k * step) [0..<(n + step - 1) div step]"

definition icite_batch_size :: nat where
  "icite_batch_size = 1000"

text \<open>
  \<open>icite k s\<close> is the outcome of the \<open>k\<close>-th call of the service (counted from 0), made
  with the \<^verbatim>\<open>pmids\<close> parameter \<open>s\<close>. The function updates the list in place, so its
  result here is a pair: the exception that left it, if any (no call catches the
  \<^verbatim>\<open>KeyError\<close> of line 179 or the \<^verbatim>\<open>TypeError\<close> of line 183), and the list as the
  call leaves it, which is also what it returns.
\<close>

fun enrich_batches ::
    "'f numerics \<Rightarrow> (nat \<Rightarrow> string \<Rightarrow> 'f icite_response) \<Rightarrow> 'f pyval list \<Rightarrow> nat list \<Rightarrow>
     'f pydict list \<Rightarrow> exn option \<times> 'f pydict list" where
  "enrich_batches F icite pmids [] publications = (None, publications)"
| "enrich_batches F icite pmids (i # is) publications =
     (case strings_of (take icite_batch_size (drop i pmids)) of
        None \<Rightarrow> (Some TypeError, publications)
      | Some batch_pmids \<Rightarrow>
          enrich_batches F icite pmids is
            (enrich_batch F (icite (i div icite_batch_size) (py_join '','' batch_pmids))
               publications))"

definition fetch_citation_counts ::
    "'f numerics \<Rightarrow> (nat \<Rightarrow> string \<Rightarrow> 'f icite_response) \<Rightarrow> 'f pydict list \<Rightarrow>
     exn option \<times> 'f pydict list" where
  "fetch_citation_counts F icite publications =
     (case pmids_of publications of
        None \<Rightarrow> (Some (KeyError ''PMID''), publications)
      | Some pmids \<Rightarrow>
          enrich_batches F icite pmids (py_range_step (length pmids) icite_batch_size)
            publications)"

section \<open>Raw records and the record normalizer\<close>

text \<open>
  The parsed PubMed XML that \<^verbatim>\<open>Entrez.read\<close> returns: nested dictionaries whose leaves
  are strings. An absent key is \<open>None\<close>.
\<close>

record pub_date =
  Year :: "string option"
  MedlineDate :: "string option"

record journal_issue =
  PubDate :: "pub_date option"

record journal =
  JournalIssue :: "journal_issue option"
  Title :: "string option"

record author_entry =
  LastName :: "string option"
  Initials :: "string option"
  CollectiveName :: "string option"

datatype abstract_text = Fragments "string list" | Block string

record abstract =
  AbstractText :: "abstract_text option"

record article =
  Journal :: "journal option"
  ArticleTitle :: "string option"
  AuthorList :: "author_entry list option"
  Abstract :: "abstract option"

record medline_citation =
  Article :: "article option"
  PMID :: "string option"

record article_id =
  IdType :: "string option"
  id_text :: string

record pubmed_data =
  ArticleIdList :: "article_id list option"

record pubmed_article =
  MedlineCitation :: "medline_citation option"
  PubmedData :: "pubmed_data option"

definition or_default :: "'a option \<Rightarrow> 'a \<Rightarrow> 'a" where
  "or_default v dflt = (case v of None \<Rightarrow> dflt | Some x \<Rightarrow> x)"

definition extract_year :: "pub_date \<Rightarrow> exn + string" where
  \<comment> \<open>lines 78-81\<close>
  "extract_year pd =
     (let year = or_default (Year pd) ''''
      in case MedlineDate pd of
           Some medline_date \<Rightarrow>
             if year = [] then
               (case py_split medline_date of
                  [] \<Rightarrow> Inl IndexError
                | token # _ \<Rightarrow> Inr token)
             else Inr year
         | None \<Rightarrow> Inr year)"

definition extract_doi :: "article_id list \<Rightarrow> string" where
  \<comment> \<open>lines 84-89\<close>
  "extract_doi article_ids =
     (case find (\<lambda>a. IdType a = Some ''doi'') article_ids of
        None \<Rightarrow> ''''
      | Some a \<Rightarrow> id_text a)"

definition display_name :: "author_entry \<Rightarrow> string option" where
  \<comment> \<open>lines 101-105\<close>
  "display_name a =
     (case (LastName a, Initials a) of
        (Some l, Some i) \<Rightarrow> Some (l @ '' '' @ i)
      | _ \<Rightarrow> CollectiveName a)"

definition display_names :: "author_entry list \<Rightarrow> string list" where
  "display_names author_list = List.map_filter display_name author_list"

fun author_position_from :: "nat \<Rightarrow> string \<Rightarrow> author_entry list \<Rightarrow> nat option" where
  \<comment> \<open>lines 109-115, the index counted from \<open>idx\<close>\<close>
  "author_position_from idx search_last_name [] = None"
| "author_position_from idx search_last_name (a # as) =
     (case LastName a of
        Some l \<Rightarrow>
          if py_upper l = search_last_name then Some idx
          else author_position_from (Suc idx) search_last_name as
      | None \<Rightarrow> author_position_from (Suc idx) search_last_name as)"

definition position_kept :: "nat option \<Rightarrow> nat \<Rightarrow> bool" where
  \<comment> \<open>lines 119-128: \<open>False\<close> is the \<^verbatim>\<open>continue\<close>\<close>
  "position_kept author_position num_authors =
     (case author_position of
        Some p \<Rightarrow> int p < 2 \<or> int p \<ge> int num_authors - 2
      | None \<Rightarrow> False)"

definition passes_filter :: "bool \<Rightarrow> string \<Rightarrow> author_entry list \<Rightarrow> bool" where
  \<comment> \<open>lines 98-128: the position is an index of \<^verbatim>\<open>author_list\<close>, the count is
      \<^verbatim>\<open>len(authors)\<close>, the list of display names\<close>
  "passes_filter filter_author_position search_last_name author_list =
     (if filter_author_position
      then position_kept (author_position_from 0 search_last_name author_list)
             (length (display_names author_list))
      else True)"

definition extract_abstract :: "article \<Rightarrow> string" where
  \<comment> \<open>lines 131-137\<close>
  "extract_abstract a =
     (case Abstract a of
        None \<Rightarrow> ''''
      | Some ab \<Rightarrow>
          (case AbstractText ab of
             None \<Rightarrow> ''''
           | Some (Fragments parts) \<Rightarrow> py_join '' '' parts
           | Some (Block text) \<Rightarrow> text))"

definition process_record ::
    "string \<Rightarrow> bool \<Rightarrow> pubmed_article \<Rightarrow> exn + 'f pydict option" where
  \<comment> \<open>lines 72-157, the body of the loop over the records of one batch: \<open>Inl\<close> is an
      exception that the \<^verbatim>\<open>except\<close> of line 155 catches, \<open>Inr None\<close> the \<^verbatim>\<open>continue\<close>
      of the position filter\<close>
  "process_record search_last_name filter_author_position record =
     (case MedlineCitation record of
        None \<Rightarrow> Inl (KeyError ''MedlineCitation'')
      | Some citation \<Rightarrow>
     (case Article citation of
        None \<Rightarrow> Inl (KeyError ''Article'')
      | Some art \<Rightarrow>
     (case Journal art of
        None \<Rightarrow> Inl (KeyError ''Journal'')
      | Some jour \<Rightarrow>
     (case JournalIssue jour of
        None \<Rightarrow> Inl (KeyError ''JournalIssue'')
      | Some issue \<Rightarrow>
     (case PubDate issue of
        None \<Rightarrow> Inl (KeyError ''PubDate'')
      | Some pd \<Rightarrow>
     (case extract_year pd of
        Inl e \<Rightarrow> Inl e
      | Inr year \<Rightarrow>
     (let doi = extract_doi
                  (or_default (ArticleIdList (or_default (PubmedData record)
                     \<lparr> ArticleIdList = None \<rparr>)) [])
      in case PMID citation of
        None \<Rightarrow> Inl (KeyError ''PMID'')
      | Some pmid \<Rightarrow>
     (let title = or_default (ArticleTitle art) '''';
          author_list = or_default (AuthorList art) [];
          authors_str = py_join '', '' (display_names author_list)
      in if \<not> passes_filter filter_author_position search_last_name author_list
         then Inr None
         else
           (let abstract = extract_abstract art
            in case Title jour of
                 None \<Rightarrow> Inl (KeyError ''Title'')
               | Some journal_title \<Rightarrow>
                   Inr (Some
                     [(''PMID'', PStr pmid),
                      (''Title'', PStr title),
                      (''Authors'', PStr authors_str),
                      (''Journal'', PStr journal_title),
                      (''Year'', PStr year),
                      (''DOI'', PStr doi),
                      (''Abstract'', PStr abstract),
                      (''PubMed_URL'',
                         PStr (''https://pubmed.ncbi.nlm.nih.gov/'' @ pmid @ ''/''))]))))))))))"

section \<open>The aggregation pipeline\<close>

text \<open>
  The remote services, as the pipeline sees them. \<open>esearch term\<close> is the outcome of lines
  45-47: an exception, or the \<^verbatim>\<open>IdList\<close> of the search result. \<open>efetch k ids\<close> is the
  outcome of the \<open>k\<close>-th detail fetch (lines 64-66) with the comma-joined identifiers
  \<open>ids\<close>: an exception, or the list under the \<^verbatim>\<open>PubmedArticle\<close> key, which the parser
  provides for every article set. \<open>icite\<close> is the citation service of the enricher.
\<close>

record 'f services =
  esearch :: "string \<Rightarrow> exn + string list"
  efetch :: "nat \<Rightarrow> string \<Rightarrow> exn + pubmed_article list"
  icite :: "nat \<Rightarrow> string \<Rightarrow> 'f icite_response"

definition year_or :: "int option \<Rightarrow> string \<Rightarrow> string" where
  \<comment> \<open>\<^verbatim>\<open>start_year or "1900"\<close>, formatted\<close>
  "year_or v dflt = (case v of None \<Rightarrow> dflt | Some n \<Rightarrow> if n \<noteq> 0 then str_of_int n else dflt)"

definition year_given :: "int option \<Rightarrow> bool" where
  "year_given v = (case v of None \<Rightarrow> False | Some n \<Rightarrow> n \<noteq> 0)"

definition quoted :: "string \<Rightarrow> string" where
  "quoted s = [CHR 0x22] @ s @ [CHR 0x22]"

definition build_term :: "string \<Rightarrow> int option \<Rightarrow> int option \<Rightarrow> string" where
  \<comment> \<open>lines 36-40\<close>
  "build_term author_name start_year end_year =
     (let term = quoted (author_name @ ''[Author]'')
      in if year_given start_year \<or> year_given end_year
         then term @ '' AND ('' @ quoted (year_or start_year ''1900'') @ ''[dp] : ''
                @ quoted (year_or end_year ''3000'') @ ''[dp])''
         else term)"

definition fetch_batch_size :: nat where
  "fetch_batch_size = 100"

definition collect_records ::
    "string \<Rightarrow> bool \<Rightarrow> pubmed_article list \<Rightarrow> 'f pydict list \<Rightarrow> 'f pydict list" where
  \<comment> \<open>lines 71-157: the loop over the records of one fetched batch\<close>
  "collect_records search_last_name filter_author_position records publications =
     fold (\<lambda>record acc.
             case process_record search_last_name filter_author_position record of
               Inr (Some pub_info) \<Rightarrow> acc @ [pub_info]
             | Inr None \<Rightarrow> acc
             | Inl e \<Rightarrow> acc)
       records publications"

definition fetch_batch ::
    "'f services \<Rightarrow> string \<Rightarrow> bool \<Rightarrow> string list \<Rightarrow> nat \<Rightarrow> 'f pydict list \<Rightarrow> 'f pydict list" where
  \<comment> \<open>lines 60-157: one round of the loop over the batches\<close>
  "fetch_batch E search_last_name filter_author_position ids i publications =
     (case efetch E (i div fetch_batch_size)
             (py_join '','' (take fetch_batch_size (drop i ids))) of
        Inl e \<Rightarrow> publications
      | Inr records \<Rightarrow>
          collect_records search_last_name filter_author_position records publications)"

definition fetch_all_batches ::
    "'f services \<Rightarrow> string \<Rightarrow> bool \<Rightarrow> string list \<Rightarrow> 'f pydict list" where
  \<comment> \<open>lines 56-157: the list \<^verbatim>\<open>publications\<close> when the loop over the batches ends\<close>
  "fetch_all_batches E search_last_name filter_author_position ids =
     fold (fetch_batch E search_last_name filter_author_position ids)
       (py_range_step (length ids) fetch_batch_size) []"

definition year_key :: "'f pydict \<Rightarrow> string" where
  \<comment> \<open>\<^verbatim>\<open>x.get("Year", "")\<close>; every dictionary sorted at line 160 was built at line 147
      with a string under \<^verbatim>\<open>Year\<close>\<close>
  "year_key pub = (case py_get pub ''Year'' (PStr '''') of PStr s \<Rightarrow> s | _ \<Rightarrow> '''')"

definition py_sort_reverse :: "('a \<Rightarrow> 'k::linorder) \<Rightarrow> 'a list \<Rightarrow> 'a list" where
  \<comment> \<open>\<^verbatim>\<open>xs.sort(key=f, reverse=True)\<close>: the list is reversed, sorted by the stable
      ascending sort and reversed again\<close>
  "py_sort_reverse f xs = rev (sort_key f (rev xs))"

definition fetch_author_publications ::
    "'f numerics \<Rightarrow> 'f services \<Rightarrow> string \<Rightarrow> int option \<Rightarrow> int option \<Rightarrow> bool \<Rightarrow>
     exn + 'f pydict list" where
  \<comment> \<open>lines 15-166; the parameters \<^verbatim>\<open>email\<close> and \<^verbatim>\<open>output_format\<close> do not reach the
      result\<close>
  "fetch_author_publications F E author_name start_year end_year filter_author_position =
     (case py_split author_name of
        [] \<Rightarrow> Inl IndexError
      | last_name # _ \<Rightarrow>
          (let search_last_name = py_upper last_name;
               term = build_term author_name start_year end_year
           in case esearch E term of
                Inl e \<Rightarrow> Inl e
              | Inr ids \<Rightarrow>
                  if ids = [] then Inr []
                  else
                    (let publications =
                           fetch_all_batches E search_last_name filter_author_position ids;
                         publications = py_sort_reverse year_key publications
                     in case fetch_citation_counts F (icite E) publications of
                          (None, publications) \<Rightarrow> Inr publications
                        | (Some e, _) \<Rightarrow> Inl e)))"

section \<open>The web boundary\<close>

text \<open>The route \<^verbatim>\<open>/results\<close> of \<^verbatim>\<open>app.py\<close>, lines 55-79, and the three pages it can answer with.\<close>

datatype 'f page = Redirect_Home | Error_Page exn | Results_Page "'f pydict list" string

definition arg :: "(string \<times> string) list \<Rightarrow> string \<Rightarrow> string \<Rightarrow> string" where
  \<comment> \<open>\<^verbatim>\<open>request.args.get(k, default)\<close>\<close>
  "arg args k dflt = (case map_of args k of None \<Rightarrow> dflt | Some v \<Rightarrow> v)"

definition year_arg :: "'f numerics \<Rightarrow> string \<Rightarrow> exn + int option" where
  \<comment> \<open>\<^verbatim>\<open>int(start_year) if start_year else None\<close>\<close>
  "year_arg F s =
     (if s = [] then Inr None
      else case int_of_str F s of None \<Rightarrow> Inl ValueError | Some n \<Rightarrow> Inr (Some n))"

definition results ::
    "'f numerics \<Rightarrow> 'f services \<Rightarrow> int \<Rightarrow> (string \<times> string) list \<Rightarrow> 'f page" where
  "results F E now_year args =
     (let author = py_strip (arg args ''author'' '''');
          start_year = py_strip (arg args ''start_year'' '''');
          end_year = py_strip (arg args ''end_year'' '''');
          filter_position = (arg args ''filter_position'' ''1'' = ''1'')
      in if author = [] then Redirect_Home
         else
           (case year_arg F start_year of
              Inl e \<Rightarrow> Error_Page e
            | Inr first_year \<Rightarrow>
           (case year_arg F end_year of
              Inl e \<Rightarrow> Error_Page e
            | Inr last_year \<Rightarrow>
           (case fetch_author_publications F E author first_year last_year filter_position of
              Inl e \<Rightarrow> Error_Page e
            | Inr pubs \<Rightarrow> Results_Page (compute_imputed_metrics F now_year pubs) author))))"

section \<open>An exact instance of the numeric primitives\<close>

text \<open>
  For worked examples only: floats are rationals and no operation rounds or overflows. The
  parsers read plain decimal literals (an optional sign, digits, and for \<^verbatim>\<open>float\<close> an
  optional fraction) between optional whitespace, and reject everything else. The
  theorems below hold for every record of primitives, this one included.
\<close>

definition digit_of :: "char \<Rightarrow> nat option" where
  "digit_of c = map_of (zip ''0123456789'' [0, 1, 2, 3, 4, 5, 6, 7, 8, 9]) c"

fun digits_val :: "nat \<Rightarrow> string \<Rightarrow> nat option" where
  "digits_val acc [] = Some acc"
| "digits_val acc (c # cs) =
     (case digit_of c of None \<Rightarrow> None | Some d \<Rightarrow> digits_val (10 * acc + d) cs)"

definition nat_of_digits :: "string \<Rightarrow> nat option" where
  "nat_of_digits s = (if s = [] then None else digits_val 0 s)"

definition signed :: "(string \<Rightarrow> 'a option) \<Rightarrow> ('a \<Rightarrow> 'a) \<Rightarrow> string \<Rightarrow> 'a option" where
  "signed parse neg s =
     (case s of
        [] \<Rightarrow> None
      | c # cs \<Rightarrow>
          if c = CHR ''-'' then map_option neg (parse cs)
          else if c = CHR ''+'' then parse cs
          else parse s)"

definition exact_int_of_str :: "string \<Rightarrow> int option" where
  "exact_int_of_str s = signed (\<lambda>t. map_option int (nat_of_digits t)) uminus (py_strip s)"

definition unsigned_rat :: "string \<Rightarrow> rat option" where
  "unsigned_rat s =
     (let ip = takeWhile (\<lambda>c. c \<noteq> CHR ''.'') s; rest = dropWhile (\<lambda>c. c \<noteq> CHR ''.'') s
      in case rest of
           [] \<Rightarrow> map_option of_nat (nat_of_digits ip)
         | _ # fp \<Rightarrow>
             (case (nat_of_digits ip, nat_of_digits fp) of
                (Some a, Some b) \<Rightarrow> Some (of_nat a + of_nat b / of_nat (10 ^ length fp))
              | _ \<Rightarrow> None))"

definition exact_float_of_str :: "string \<Rightarrow> rat option" where
  "exact_float_of_str s = signed unsigned_rat uminus (py_strip s)"

definition exact_float_repr :: "rat \<Rightarrow> string" where
  \<comment> \<open>an integral value as Python prints it (\<^verbatim>\<open>2.0\<close>), any other as its fraction\<close>
  "exact_float_repr x =
     (case quotient_of x of
        (n, d) \<Rightarrow> if d = 1 then str_of_int n @ ''.0'' else str_of_int n @ ''/'' @ str_of_int d)"

definition exact_numerics :: "rat numerics" where
  "exact_numerics =
     \<lparr> float_nonzero = (\<lambda>x. x \<noteq> 0),
       float_of_int = (\<lambda>n. Some (of_int n)),
       float_of_str = exact_float_of_str,
       int_of_float = (\<lambda>x. Some (if x < 0 then - \<lfloor>- x\<rfloor> else \<lfloor>x\<rfloor>)),
       int_of_str = exact_int_of_str,
       int_truediv = (\<lambda>a b. if b = 0 then None else Some (of_int a / of_int b)),
       float_truediv = (\<lambda>x y. if y = 0 then None else Some (x / y)),
       float_add = (\<lambda>x y. x + y),
       float_repr = exact_float_repr,
       literal_1_5 = 3 / 2 \<rparr>"

section \<open>Example data\<close>

definition example_record :: "string \<Rightarrow> string \<Rightarrow> pubmed_article" where
  \<comment> \<open>a complete raw record with one author, Knowles DA\<close>
  "example_record pmid year =
     \<lparr>MedlineCitation = Some
        \<lparr>Article = Some
           \<lparr>Journal = Some
              \<lparr>JournalIssue = Some \<lparr>PubDate = Some \<lparr>Year = Some year, MedlineDate = None\<rparr>\<rparr>,
               Title = Some ''Nature''\<rparr>,
            ArticleTitle = Some ''A title'',
            AuthorList = Some [\<lparr>LastName = Some ''Knowles'', Initials = Some ''DA'',
                                CollectiveName = None\<rparr>],
            Abstract = None\<rparr>,
         PMID = Some pmid\<rparr>,
      PubmedData = None\<rparr>"

definition example_publication :: "string \<Rightarrow> string \<Rightarrow> 'f pydict" where
  \<comment> \<open>what the normalizer builds from \<open>example_record\<close>\<close>
  "example_publication pmid year =
     [(''PMID'', PStr pmid), (''Title'', PStr ''A title''), (''Authors'', PStr ''Knowles DA''),
      (''Journal'', PStr ''Nature''), (''Year'', PStr year), (''DOI'', PStr ''''),
      (''Abstract'', PStr ''''),
      (''PubMed_URL'', PStr (''https://pubmed.ncbi.nlm.nih.gov/'' @ pmid @ ''/''))]"

section \<open>Notions used in the statements\<close>

definition citation_keys :: "string set" where
  "citation_keys = {''Citation_Count'', ''RCR'', ''Field_Citation_Rate''}"

definition unchanged_outside :: "string set \<Rightarrow> 'f pydict \<Rightarrow> 'f pydict \<Rightarrow> bool" where
  \<comment> \<open>\<open>q\<close> has the keys and values of \<open>p\<close>, but for the keys in \<open>K\<close>\<close>
  "unchanged_outside K p q = (\<forall>k. k \<notin> K \<longrightarrow> map_of q k = map_of p k)"

definition has_citation_fields :: "'f pydict \<Rightarrow> bool" where
  "has_citation_fields p =
     (py_in ''Citation_Count'' p \<and> py_in ''RCR'' p \<and> py_in ''Field_Citation_Rate'' p)"

definition citation_values :: "'f pydict \<Rightarrow> 'f pyval \<times> 'f pyval \<times> 'f pyval" where
  "citation_values p =
     (py_get p ''Citation_Count'' PNone, py_get p ''RCR'' PNone,
      py_get p ''Field_Citation_Rate'' PNone)"

definition served_by ::
    "'f numerics \<Rightarrow> (nat \<Rightarrow> string \<Rightarrow> 'f icite_response) \<Rightarrow> 'f pydict \<Rightarrow> bool" where
  \<comment> \<open>the citation values of \<open>p\<close> are those of an item for its identifier in a reply of
      the service with status 200\<close>
  "served_by F srv p =
     (\<exists>k s items item.
        srv k s = Status 200 items \<and> item \<in> set items \<and>
        map_of p ''PMID'' = Some (PStr (item_pmid F item)) \<and>
        citation_values p =
          (py_get item ''citation_count'' (PInt 0),
           py_get item ''relative_citation_ratio'' (PStr ''''),
           py_get item ''field_citation_rate'' (PStr '''')))"

definition enriched ::
    "'f numerics \<Rightarrow> (nat \<Rightarrow> string \<Rightarrow> 'f icite_response) \<Rightarrow> 'f pydict \<Rightarrow> bool" where
  \<comment> \<open>all three citation fields are set, to the explicit empty values or to values of
      the service\<close>
  "enriched F srv p =
     (has_citation_fields p \<and>
      (citation_values p = (PStr '''', PStr '''', PStr '''') \<or> served_by F srv p))"

definition base_fields :: "'f pydict \<Rightarrow> 'f pydict" where
  \<comment> \<open>a record without its citation fields\<close>
  "base_fields p = filter (\<lambda>kv. fst kv \<notin> citation_keys) p"

definition last_name_matches :: "string \<Rightarrow> author_entry \<Rightarrow> bool" where
  "last_name_matches search_last_name a =
     (case LastName a of None \<Rightarrow> False | Some l \<Rightarrow> py_upper l = search_last_name)"

definition kept_records :: "string \<Rightarrow> bool \<Rightarrow> pubmed_article list \<Rightarrow> 'f pydict list" where
  \<comment> \<open>the publications that the records of one batch contribute, in order\<close>
  "kept_records search_last_name filter_author_position records =
     List.map_filter
       (\<lambda>record. case process_record search_last_name filter_author_position record of
                    Inr (Some pub_info) \<Rightarrow> Some pub_info
                  | _ \<Rightarrow> None)
       records"

definition batch_ids :: "string list \<Rightarrow> nat \<Rightarrow> string" where
  \<comment> \<open>the identifiers sent with the \<open>k\<close>-th detail fetch\<close>
  "batch_ids ids k =
     py_join '','' (take fetch_batch_size (drop (k * fetch_batch_size) ids))"

definition normalized :: "'f pydict \<Rightarrow> bool" where
  \<comment> \<open>what the enricher relies on in a record the normalizer built\<close>
  "normalized p =
     ((\<exists>s. map_of p ''PMID'' = Some (PStr s)) \<and> (\<exists>y. map_of p ''Year'' = Some (PStr y)) \<and>
      \<not> py_in ''Citation_Count'' p \<and> base_fields p = p)"

definition batch_records ::
    "'f services \<Rightarrow> string \<Rightarrow> bool \<Rightarrow> string list \<Rightarrow> nat \<Rightarrow> 'f pydict list" where
  \<comment> \<open>what the round of the batch loop at offset \<open>i\<close> appends\<close>
  "batch_records E search_last_name filter_author_position ids i =
     (case efetch E (i div fetch_batch_size)
             (py_join '','' (take fetch_batch_size (drop i ids))) of
        Inl e \<Rightarrow> []
      | Inr records \<Rightarrow> kept_records search_last_name filter_author_position records)"

section \<open>Dictionary updates\<close>

lemma map_of_py_set: "map_of (py_set k v d) k' = (if k' = k then Some v else map_of d k')"
  by (simp add: py_set_def update_conv')

lemma py_get_py_set: "py_get (py_set k v d) k' x = (if k' = k then v else py_get d k' x)"
  by (simp add: py_get_def map_of_py_set)

lemma py_in_py_set: "py_in k' (py_set k v d) = (k' = k \<or> py_in k' d)"
  by (simp add: py_in_def map_of_py_set)

lemma py_set_twice: "py_set k v (py_set k w d) = py_set k v d"
  by (induction d) (auto simp: py_set_def)

section \<open>Properties of the metric imputer\<close>

lemma imputed_value_py_set:
  "imputed_value F y (py_set ''RCR_imputed'' v pub) = imputed_value F y pub"
  by (simp add: imputed_value_def py_get_py_set Let_def)

text \<open>
  C6. The imputer is idempotent: a second run over its own output changes nothing, and
  whatever value a record carried under \<^verbatim>\<open>RCR_imputed\<close> before a run, the run leaves the
  value derived from \<^verbatim>\<open>RCR\<close>, \<^verbatim>\<open>Year\<close> and \<^verbatim>\<open>Citation_Count\<close> for the same current year.
\<close>

theorem imputer_idempotent:
  "compute_imputed_metrics F y (compute_imputed_metrics F y pubs) =
     compute_imputed_metrics F y pubs \<and>
   map (\<lambda>p. map_of p ''RCR_imputed'')
       (compute_imputed_metrics F y (map (py_set ''RCR_imputed'' v) pubs)) =
     map (\<lambda>p. map_of p ''RCR_imputed'') (compute_imputed_metrics F y pubs)"
  by (simp add: compute_imputed_metrics_def imputed_value_py_set py_set_twice map_of_py_set)

theorem imputer_idempotent_witness:
  "compute_imputed_metrics exact_numerics 2025
     (compute_imputed_metrics exact_numerics 2025
        [[(''Year'', PStr ''2020''), (''Citation_Count'', PInt 10), (''RCR'', PStr '''')]]) =
   [[(''Year'', PStr ''2020''), (''Citation_Count'', PInt 10), (''RCR'', PStr ''''),
     (''RCR_imputed'', PFloat 2)]]"
proof -
  have "compute_imputed_metrics exact_numerics 2025
          [[(''Year'', PStr ''2020''), (''Citation_Count'', PInt 10), (''RCR'', PStr '''')]] =
        [[(''Year'', PStr ''2020''), (''Citation_Count'', PInt 10), (''RCR'', PStr ''''),
          (''RCR_imputed'', PFloat 2)]]"
    by code_simp
  then show ?thesis
    using imputer_idempotent
      [of exact_numerics 2025
        "[[(''Year'', PStr ''2020''), (''Citation_Count'', PInt 10), (''RCR'', PStr '''')]]"]
    by simp
qed

lemma falsy_or_empty: "(\<not> py_truthy F rcr \<or> rcr = PStr '''') = (\<not> py_truthy F rcr)"
  by auto

text \<open>
  The branches of the imputer, for the publication at any index. The test of line 275 is
  the truth value of \<^verbatim>\<open>RCR\<close>. When it is truthy the imputed value is \<^verbatim>\<open>float(RCR)\<close>, or
  the value of the literal \<^verbatim>\<open>1.5\<close> when the conversion raises; when it is falsy and
  \<^verbatim>\<open>Year\<close> and \<^verbatim>\<open>Citation_Count\<close> are both truthy it is the citation count divided by the
  years since publication when they are positive, the citation count plus one when they are
  not, and 0 when \<^verbatim>\<open>int(year)\<close> or the arithmetic raises; in all other cases it is 0.
\<close>

lemma imputer_cases:
  assumes "i < length pubs"
    and "rcr = py_get (pubs ! i) ''RCR'' PNone"
    and "year = py_get (pubs ! i) ''Year'' (PStr '''')"
    and "citations = py_get (pubs ! i) ''Citation_Count'' (PInt 0)"
    and "v = map_of (compute_imputed_metrics F now pubs ! i) ''RCR_imputed''"
  shows "(py_truthy F rcr \<longrightarrow>
            v = Some (case py_float F rcr of Some x \<Rightarrow> PFloat x | None \<Rightarrow> PFloat (literal_1_5 F))) \<and>
         (\<not> py_truthy F rcr \<and> py_truthy F year \<and> py_truthy F citations \<longrightarrow>
            (\<forall>y. py_int F year = Some y \<and> now - y > 0 \<longrightarrow>
               v = Some (case py_truediv F citations (now - y) of Some q \<Rightarrow> q | None \<Rightarrow> PInt 0)) \<and>
            (\<forall>y. py_int F year = Some y \<and> now - y \<le> 0 \<longrightarrow>
               v = Some (case py_add_one F citations of Some q \<Rightarrow> q | None \<Rightarrow> PInt 0)) \<and>
            (py_int F year = None \<longrightarrow> v = Some (PInt 0))) \<and>
         (\<not> py_truthy F rcr \<and> \<not> (py_truthy F year \<and> py_truthy F citations) \<longrightarrow>
            v = Some (PInt 0))"
proof -
  have v: "v = Some (imputed_value F now (pubs ! i))"
    using assms(1,5) by (simp add: compute_imputed_metrics_def map_of_py_set)
  show ?thesis
    unfolding v imputed_value_def falsy_or_empty assms(2-4) Let_def
    by (auto split: option.splits)
qed

lemma imputer_cases_example:
  "map_of (compute_imputed_metrics exact_numerics 2025
             [[(''RCR'', PStr ''0.87'')],
              [(''RCR'', PStr ''''), (''Year'', PStr ''2020''), (''Citation_Count'', PInt 10)],
              [(''Year'', PStr ''2025''), (''Citation_Count'', PInt 3)],
              [(''RCR'', PStr ''N/A''), (''Year'', PStr ''2020''), (''Citation_Count'', PInt 10)]] ! 0) ''RCR_imputed''
     = Some (PFloat (87 / 100)) \<and>
   map_of (compute_imputed_metrics exact_numerics 2025
             [[(''RCR'', PStr ''0.87'')],
              [(''RCR'', PStr ''''), (''Year'', PStr ''2020''), (''Citation_Count'', PInt 10)],
              [(''Year'', PStr ''2025''), (''Citation_Count'', PInt 3)],
              [(''RCR'', PStr ''N/A''), (''Year'', PStr ''2020''), (''Citation_Count'', PInt 10)]] ! 1) ''RCR_imputed''
     = Some (PFloat 2) \<and>
   map_of (compute_imputed_metrics exact_numerics 2025
             [[(''RCR'', PStr ''0.87'')],
              [(''RCR'', PStr ''''), (''Year'', PStr ''2020''), (''Citation_Count'', PInt 10)],
              [(''Year'', PStr ''2025''), (''Citation_Count'', PInt 3)],
              [(''RCR'', PStr ''N/A''), (''Year'', PStr ''2020''), (''Citation_Count'', PInt 10)]] ! 2) ''RCR_imputed''
     = Some (PInt 4) \<and>
   map_of (compute_imputed_metrics exact_numerics 2025
             [[(''RCR'', PStr ''0.87'')],
              [(''RCR'', PStr ''''), (''Year'', PStr ''2020''), (''Citation_Count'', PInt 10)],
              [(''Year'', PStr ''2025''), (''Citation_Count'', PInt 3)],
              [(''RCR'', PStr ''N/A''), (''Year'', PStr ''2020''), (''Citation_Count'', PInt 10)]] ! 3) ''RCR_imputed''
     = Some (PFloat (3 / 2))"
proof -
  let ?pubs = "[[(''RCR'', PStr ''0.87'')],
              [(''RCR'', PStr ''''), (''Year'', PStr ''2020''), (''Citation_Count'', PInt 10)],
              [(''Year'', PStr ''2025''), (''Citation_Count'', PInt 3)],
              [(''RCR'', PStr ''N/A''), (''Year'', PStr ''2020''), (''Citation_Count'', PInt 10)]] :: rat pydict list"
  note defs = py_get_def exact_numerics_def exact_float_of_str_def exact_int_of_str_def
    unsigned_rat_def signed_def py_strip_def py_isspace_def nat_of_digits_def digit_of_def
  have "map_of (compute_imputed_metrics exact_numerics 2025 ?pubs ! 0) ''RCR_imputed''
          = Some (PFloat (87 / 100))"
    using imputer_cases [of 0 ?pubs _ _ _ _ exact_numerics 2025, OF _ refl refl refl refl]
    by (simp add: defs)
  moreover have "map_of (compute_imputed_metrics exact_numerics 2025 ?pubs ! 1) ''RCR_imputed''
          = Some (PFloat 2)"
    using imputer_cases [of 1 ?pubs _ _ _ _ exact_numerics 2025, OF _ refl refl refl refl]
    by (simp add: defs)
  moreover have "map_of (compute_imputed_metrics exact_numerics 2025 ?pubs ! 2) ''RCR_imputed''
          = Some (PInt 4)"
    using imputer_cases [of 2 ?pubs _ _ _ _ exact_numerics 2025, OF _ refl refl refl refl]
    by (simp add: defs)
  moreover have "map_of (compute_imputed_metrics exact_numerics 2025 ?pubs ! 3) ''RCR_imputed''
          = Some (PFloat (3 / 2))"
    using imputer_cases [of 3 ?pubs _ _ _ _ exact_numerics 2025, OF _ refl refl refl refl]
    by (simp add: defs)
  ultimately show ?thesis by blast
qed

text \<open>
  C1 does not hold of the code. The test of line 275 takes a ratio that is present and
  zero for a missing one: the publication below carries \<^verbatim>\<open>RCR = 0.0\<close>, whose conversion
  to a float succeeds with 0.0, and the imputed value is the estimate
  10 / (2025 - 2020) = 2.0, not 0.0.
\<close>

theorem imputer_zero_ratio_counterexample:
  "map_of [(''Year'', PStr ''2020''), (''Citation_Count'', PInt 10), (''RCR'', PFloat 0)] ''RCR''
     = Some (PFloat (0 :: rat)) \<and>
   py_float exact_numerics (PFloat 0) = Some 0 \<and>
   compute_imputed_metrics exact_numerics 2025
     [[(''Year'', PStr ''2020''), (''Citation_Count'', PInt 10), (''RCR'', PFloat 0)]] =
     [[(''Year'', PStr ''2020''), (''Citation_Count'', PInt 10), (''RCR'', PFloat 0),
       (''RCR_imputed'', PFloat 2)]] \<and>
   PFloat 2 \<noteq> PFloat (0 :: rat)"
  by code_simp

section \<open>Properties of the citation enricher\<close>

lemma unchanged_outside_refl: "unchanged_outside K p p"
  by (simp add: unchanged_outside_def)

lemma unchanged_outside_trans:
  "unchanged_outside K p q \<Longrightarrow> unchanged_outside K q r \<Longrightarrow> unchanged_outside K p r"
  by (simp add: unchanged_outside_def)

lemma unchanged_outside_py_set: "k \<in> K \<Longrightarrow> unchanged_outside K p (py_set k v p)"
  by (auto simp: unchanged_outside_def map_of_py_set)

lemma set_citation_fields_frame: "unchanged_outside citation_keys p (set_citation_fields c r f p)"
  by (auto simp: unchanged_outside_def set_citation_fields_def map_of_py_set citation_keys_def)

lemma apply_citation_frame: "unchanged_outside citation_keys p (apply_citation m p)"
  by (simp add: apply_citation_def set_citation_fields_frame split: option.splits)

lemma add_empty_citation_frame: "unchanged_outside citation_keys p (add_empty_citation p)"
  by (simp add: add_empty_citation_def set_citation_fields_frame unchanged_outside_refl)

lemma enrich_batch_frame:
  "list_all2 (unchanged_outside citation_keys) pubs (enrich_batch F r pubs)"
  by (cases r)
     (simp_all add: enrich_batch_def list_all2_map2 list.rel_refl apply_citation_frame
        add_empty_citation_frame)

lemma enrich_batches_frame:
  "list_all2 (unchanged_outside citation_keys) pubs (snd (enrich_batches F srv pmids is pubs))"
proof (induction "is" arbitrary: pubs)
  case Nil
  then show ?case by (simp add: list.rel_refl unchanged_outside_refl)
next
  case (Cons i "is")
  show ?case
  proof (cases "strings_of (take icite_batch_size (drop i pmids))")
    case None
    then show ?thesis by (simp add: list.rel_refl unchanged_outside_refl)
  next
    case (Some ids)
    let ?mid = "enrich_batch F (srv (i div icite_batch_size) (py_join '','' ids)) pubs"
    have "list_all2 (unchanged_outside citation_keys) pubs ?mid"
      by (rule enrich_batch_frame)
    moreover have "list_all2 (unchanged_outside citation_keys) ?mid
                     (snd (enrich_batches F srv pmids is ?mid))"
      by (rule Cons.IH)
    ultimately have "list_all2 (unchanged_outside citation_keys) pubs
                       (snd (enrich_batches F srv pmids is ?mid))"
      by (rule list_all2_trans [rotated]) (rule unchanged_outside_trans)
    with Some show ?thesis by simp
  qed
qed

lemma fetch_citation_counts_frame:
  "list_all2 (unchanged_outside citation_keys) pubs (snd (fetch_citation_counts F srv pubs))"
  by (simp add: fetch_citation_counts_def enrich_batches_frame list.rel_refl
      unchanged_outside_refl split: option.splits)

lemma compute_imputed_metrics_frame:
  "list_all2 (unchanged_outside {''RCR_imputed''}) pubs (compute_imputed_metrics F y pubs)"
  by (simp add: compute_imputed_metrics_def list_all2_map2 list.rel_refl unchanged_outside_py_set)

text \<open>
  C10. The enricher and the imputer keep the length and the order of the list; the
  enricher changes no key of a publication but \<^verbatim>\<open>Citation_Count\<close>, \<^verbatim>\<open>RCR\<close> and
  \<^verbatim>\<open>Field_Citation_Rate\<close>, also when it leaves with an exception, and the imputer no key
  but \<^verbatim>\<open>RCR_imputed\<close>, so every field the normalizer produced is as it was.
\<close>

theorem enricher_imputer_frame:
  "length (snd (fetch_citation_counts F srv pubs)) = length pubs \<and>
   (\<forall>i < length pubs. \<forall>k. k \<notin> {''Citation_Count'', ''RCR'', ''Field_Citation_Rate''} \<longrightarrow>
      map_of (snd (fetch_citation_counts F srv pubs) ! i) k = map_of (pubs ! i) k) \<and>
   length (compute_imputed_metrics F y pubs) = length pubs \<and>
   (\<forall>i < length pubs. \<forall>k. k \<noteq> ''RCR_imputed'' \<longrightarrow>
      map_of (compute_imputed_metrics F y pubs ! i) k = map_of (pubs ! i) k)"
proof -
  have "length (snd (fetch_citation_counts F srv pubs)) = length pubs \<and>
      (\<forall>i < length pubs. \<forall>k. k \<notin> {''Citation_Count'', ''RCR'', ''Field_Citation_Rate''} \<longrightarrow>
         map_of (snd (fetch_citation_counts F srv pubs) ! i) k = map_of (pubs ! i) k)"
    using fetch_citation_counts_frame [of pubs F srv]
    by (simp add: list_all2_conv_all_nth unchanged_outside_def citation_keys_def)
  moreover have "length (compute_imputed_metrics F y pubs) = length pubs \<and>
   (\<forall>i < length pubs. \<forall>k. k \<noteq> ''RCR_imputed'' \<longrightarrow>
      map_of (compute_imputed_metrics F y pubs ! i) k = map_of (pubs ! i) k)"
    using compute_imputed_metrics_frame [of pubs F y]
    by (simp add: list_all2_conv_all_nth unchanged_outside_def)
  ultimately show ?thesis by blast
qed

theorem enricher_imputer_frame_witness:
  "fetch_citation_counts exact_numerics
     (\<lambda>k s. Status 200 [[(''pmid'', PInt 7), (''citation_count'', PInt 3)]])
     [[(''PMID'', PStr ''7''), (''Year'', PStr ''2020'')]] =
   (None, [[(''PMID'', PStr ''7''), (''Year'', PStr ''2020''), (''Citation_Count'', PInt 3),
            (''RCR'', PStr ''''), (''Field_Citation_Rate'', PStr '''')]]) \<and>
   map_of ([(''PMID'', PStr ''7''), (''Year'', PStr ''2020''), (''Citation_Count'', PInt 3),
         (''RCR'', PStr ''''), (''Field_Citation_Rate'', PStr '''')] :: rat pydict) ''Year'' =
   map_of [(''PMID'', PStr ''7''), (''Year'', PStr ''2020'')] ''Year''"
proof -
  let ?srv = "\<lambda>(k::nat) (s::string). Status 200 [[(''pmid'', PInt 7), (''citation_count'', PInt 3)]]
                 :: rat icite_response"
  let ?pubs = "[[(''PMID'', PStr ''7''), (''Year'', PStr ''2020'')]] :: rat pydict list"
  let ?res = "[[(''PMID'', PStr ''7''), (''Year'', PStr ''2020''), (''Citation_Count'', PInt 3),
         (''RCR'', PStr ''''), (''Field_Citation_Rate'', PStr '''')]] :: rat pydict list"
  have ev: "fetch_citation_counts exact_numerics ?srv ?pubs = (None, ?res)"
    by code_simp
  from enricher_imputer_frame [of exact_numerics ?srv ?pubs 2025] ev
  have "\<forall>i < length ?pubs. \<forall>k. k \<notin> {''Citation_Count'', ''RCR'', ''Field_Citation_Rate''} \<longrightarrow>
         map_of (?res ! i) k = map_of (?pubs ! i) k"
    by simp
  then have "map_of (?res ! 0) ''Year'' = map_of (?pubs ! 0) ''Year''"
    by simp
  with ev show ?thesis by simp
qed

lemma citation_map_origin:
  "map_of (fold (\<lambda>item m. AList.update (item_pmid F item) (cite_data_of item) m) items m0) s
     = Some cd \<Longrightarrow>
   (\<exists>item \<in> set items. item_pmid F item = s \<and> cd = cite_data_of item) \<or> map_of m0 s = Some cd"
proof (induction items arbitrary: m0)
  case Nil
  then show ?case by simp
next
  case (Cons item items)
  from Cons.IH [OF Cons.prems [simplified]] show ?case
    by (auto simp: update_conv' split: if_splits)
qed

lemma build_citation_map_origin:
  "map_of (build_citation_map F items) s = Some cd \<Longrightarrow>
   \<exists>item \<in> set items. item_pmid F item = s \<and> cd = cite_data_of item"
  unfolding build_citation_map_def by (drule citation_map_origin) simp

lemma set_citation_fields_has: "has_citation_fields (set_citation_fields c r f p)"
  by (simp add: has_citation_fields_def set_citation_fields_def py_in_py_set)

lemma set_citation_fields_values: "citation_values (set_citation_fields c r f p) = (c, r, f)"
  by (simp add: citation_values_def set_citation_fields_def py_get_py_set)

lemma set_citation_fields_pmid:
  "map_of (set_citation_fields c r f p) ''PMID'' = map_of p ''PMID''"
  by (simp add: set_citation_fields_def map_of_py_set)

lemma apply_citation_enriched:
  assumes "srv k s = Status 200 items"
  shows "enriched F srv (apply_citation (build_citation_map F items) p)"
proof (cases "lookup_pmid (build_citation_map F items) (map_of p ''PMID'')")
  case None
  then show ?thesis
    by (simp add: apply_citation_def enriched_def set_citation_fields_has
        set_citation_fields_values)
next
  case (Some cd)
  then obtain t where t: "map_of p ''PMID'' = Some (PStr t)"
    and hit: "map_of (build_citation_map F items) t = Some cd"
    by (auto simp: lookup_pmid_def split: option.splits pyval.splits)
  from build_citation_map_origin [OF hit] obtain item where
    item: "item \<in> set items" "item_pmid F item = t" "cd = cite_data_of item"
    by blast
  have "served_by F srv (apply_citation (build_citation_map F items) p)"
    unfolding served_by_def
    apply (rule exI [of _ k], rule exI [of _ s], rule exI [of _ items], rule exI [of _ item])
    using assms item t Some
    by (simp add: apply_citation_def set_citation_fields_values set_citation_fields_pmid
        cite_data_of_def)
  then show ?thesis
    using Some
    by (simp add: enriched_def apply_citation_def set_citation_fields_has)
qed

lemma add_empty_citation_enriched:
  assumes "\<not> py_in ''Citation_Count'' p \<or> enriched F srv p"
  shows "enriched F srv (add_empty_citation p)"
proof (cases "py_in ''Citation_Count'' p")
  case True
  with assms show ?thesis by (simp add: add_empty_citation_def)
next
  case False
  then show ?thesis
    by (simp add: add_empty_citation_def enriched_def set_citation_fields_has
        set_citation_fields_values)
qed

lemma enrich_batch_enriched:
  assumes "\<forall>p \<in> set pubs. \<not> py_in ''Citation_Count'' p \<or> enriched F srv p"
  shows "\<forall>p' \<in> set (enrich_batch F (srv k s) pubs). enriched F srv p'"
proof (cases "srv k s")
  case Raised
  with assms show ?thesis
    by (auto simp: enrich_batch_def intro: add_empty_citation_enriched)
next
  case (Status code items)
  show ?thesis
  proof (cases "code = 200")
    case True
    with Status have "srv k s = Status 200 items" by simp
    from apply_citation_enriched [where srv = srv and k = k and s = s, OF this] Status True
    show ?thesis
      by (auto simp: enrich_batch_def)
  next
    case False
    with Status assms show ?thesis
      by (auto simp: enrich_batch_def intro: add_empty_citation_enriched)
  qed
qed

lemma enrich_batches_enriched:
  "enrich_batches F srv pmids is pubs = (None, pubs') \<Longrightarrow> is \<noteq> [] \<or> (\<forall>p \<in> set pubs. enriched F srv p) \<Longrightarrow>
   \<forall>p \<in> set pubs. \<not> py_in ''Citation_Count'' p \<or> enriched F srv p \<Longrightarrow>
   \<forall>p' \<in> set pubs'. enriched F srv p'"
proof (induction "is" arbitrary: pubs)
  case Nil
  then show ?case by simp
next
  case (Cons i "is")
  from Cons.prems(1) obtain ids where
    rest: "enrich_batches F srv pmids is
             (enrich_batch F (srv (i div icite_batch_size) (py_join '','' ids)) pubs) = (None, pubs')"
    by (auto split: option.splits)
  have step: "\<forall>p' \<in> set (enrich_batch F (srv (i div icite_batch_size) (py_join '','' ids)) pubs).
                enriched F srv p'"
    by (rule enrich_batch_enriched [OF Cons.prems(3)])
  show ?case
    by (rule Cons.IH [OF rest]) (use step in blast)+
qed

lemma strings_of_total:
  "\<forall>v \<in> set vs. \<exists>s. v = PStr s \<Longrightarrow> \<exists>ss. strings_of vs = Some ss"
  by (induction vs rule: strings_of.induct) auto

lemma pmids_of_total:
  "\<forall>p \<in> set pubs. \<exists>s. map_of p ''PMID'' = Some (PStr s) \<Longrightarrow>
   \<exists>vs. pmids_of pubs = Some vs \<and> length vs = length pubs \<and> (\<forall>v \<in> set vs. \<exists>s. v = PStr s)"
  by (induction pubs) auto

lemma enrich_batches_total:
  "\<forall>v \<in> set pmids. \<exists>s. v = PStr s \<Longrightarrow> \<exists>pubs'. enrich_batches F srv pmids is pubs = (None, pubs')"
proof (induction "is" arbitrary: pubs)
  case Nil
  then show ?case by simp
next
  case (Cons i "is")
  have "\<forall>v \<in> set (take icite_batch_size (drop i pmids)). \<exists>s. v = PStr s"
    using Cons.prems by (meson in_set_dropD in_set_takeD)
  from strings_of_total [OF this] obtain ids where
    "strings_of (take icite_batch_size (drop i pmids)) = Some ids" by blast
  with Cons.IH [OF Cons.prems] show ?case by simp
qed

lemma py_range_step_nonempty: "0 < n \<Longrightarrow> 0 < step \<Longrightarrow> py_range_step n step \<noteq> []"
  by (simp add: py_range_step_def div_greater_zero_iff)

text \<open>
  C3, as the code has it. On a non-empty list of publications none of which has a
  \<^verbatim>\<open>Citation_Count\<close> yet, as the pipeline hands them over (and each with a string under
  \<^verbatim>\<open>PMID\<close>, without which the call raises), \<^verbatim>\<open>fetch_citation_counts\<close> returns, and every
  publication of the returned list has all three citation fields, set to the explicit empty
  values or to the values of an item that the service sent for its identifier, whatever
  each call of the service did.
\<close>

theorem enricher_sets_all_fields:
  assumes "pubs \<noteq> []"
    and "\<forall>p \<in> set pubs. (\<exists>s. map_of p ''PMID'' = Some (PStr s)) \<and> \<not> py_in ''Citation_Count'' p"
  shows "\<exists>pubs'. fetch_citation_counts F srv pubs = (None, pubs') \<and> length pubs' = length pubs \<and>
           (\<forall>p' \<in> set pubs'. enriched F srv p')"
proof -
  from assms(2) have "\<forall>p \<in> set pubs. \<exists>s. map_of p ''PMID'' = Some (PStr s)" by blast
  from pmids_of_total [OF this] obtain vs where
    vs: "pmids_of pubs = Some vs" "length vs = length pubs" "\<forall>v \<in> set vs. \<exists>s. v = PStr s"
    by blast
  from enrich_batches_total [OF vs(3)] obtain pubs' where
    run: "enrich_batches F srv vs (py_range_step (length vs) icite_batch_size) pubs = (None, pubs')"
    by blast
  have "py_range_step (length vs) icite_batch_size \<noteq> []"
    using assms(1) vs(2) by (intro py_range_step_nonempty) (simp_all add: icite_batch_size_def)
  with enrich_batches_enriched [OF run] assms(2)
  have "\<forall>p' \<in> set pubs'. enriched F srv p'" by blast
  moreover have "length pubs' = length pubs"
    using enrich_batches_frame [of pubs F srv vs "py_range_step (length vs) icite_batch_size"] run
    by (simp add: list_all2_lengthD)
  ultimately show ?thesis
    using vs(1) run by (simp add: fetch_citation_counts_def)
qed

theorem enricher_sets_all_fields_witness:
  "fetch_citation_counts exact_numerics
     (\<lambda>k s. if k = 0 then Status 200 [[(''pmid'', PInt 7), (''citation_count'', PInt 3),
                        (''relative_citation_ratio'', PFloat (1 / 2))]] else Raised)
     [[(''PMID'', PStr ''7''), (''Year'', PStr ''2020'')],
      [(''PMID'', PStr ''8''), (''Year'', PStr ''2019'')]] =
   (None,
    [[(''PMID'', PStr ''7''), (''Year'', PStr ''2020''), (''Citation_Count'', PInt 3),
      (''RCR'', PFloat (1 / 2)), (''Field_Citation_Rate'', PStr '''')],
     [(''PMID'', PStr ''8''), (''Year'', PStr ''2019''), (''Citation_Count'', PStr ''''),
      (''RCR'', PStr ''''), (''Field_Citation_Rate'', PStr '''')]]) \<and>
   enriched exact_numerics
     (\<lambda>k s. if k = 0 then Status 200 [[(''pmid'', PInt 7), (''citation_count'', PInt 3),
                        (''relative_citation_ratio'', PFloat (1 / 2))]] else Raised)
     [(''PMID'', PStr ''7''), (''Year'', PStr ''2020''), (''Citation_Count'', PInt 3),
      (''RCR'', PFloat (1 / 2)), (''Field_Citation_Rate'', PStr '''')]"
proof -
  let ?srv = "\<lambda>(k::nat) (s::string). if k = 0 then Status 200 [[(''pmid'', PInt 7), (''citation_count'', PInt 3),
                        (''relative_citation_ratio'', PFloat (1 / 2 :: rat))]] else Raised"
  let ?pubs = "[[(''PMID'', PStr ''7''), (''Year'', PStr ''2020'')],
      [(''PMID'', PStr ''8''), (''Year'', PStr ''2019'')]] :: rat pydict list"
  have ev: "fetch_citation_counts exact_numerics ?srv ?pubs =
   (None,
    [[(''PMID'', PStr ''7''), (''Year'', PStr ''2020''), (''Citation_Count'', PInt 3),
      (''RCR'', PFloat (1 / 2)), (''Field_Citation_Rate'', PStr '''')],
     [(''PMID'', PStr ''8''), (''Year'', PStr ''2019''), (''Citation_Count'', PStr ''''),
      (''RCR'', PStr ''''), (''Field_Citation_Rate'', PStr '''')]])"
    by code_simp
  have "\<exists>pubs'. fetch_citation_counts exact_numerics ?srv ?pubs = (None, pubs') \<and>
          length pubs' = length ?pubs \<and> (\<forall>p' \<in> set pubs'. enriched exact_numerics ?srv p')"
    by (rule enricher_sets_all_fields) (simp_all add: py_in_def)
  with ev show ?thesis by simp
qed

text \<open>
  C3 as stated fails for a publication that comes with a \<^verbatim>\<open>Citation_Count\<close> and without the
  other two fields: when the call of the service fails, the guard of lines 219 and 230
  passes it by, and it leaves without \<^verbatim>\<open>RCR\<close> and \<^verbatim>\<open>Field_Citation_Rate\<close>.
\<close>

theorem enricher_prefilled_counterexample:
  "fetch_citation_counts exact_numerics (\<lambda>k s. Raised)
     [[(''PMID'', PStr ''8''), (''Citation_Count'', PInt 4)]] =
   (None, [[(''PMID'', PStr ''8''), (''Citation_Count'', PInt 4)]]) \<and>
   \<not> py_in ''RCR'' ([(''PMID'', PStr ''8''), (''Citation_Count'', PInt 4)] :: rat pydict) \<and>
   \<not> py_in ''Field_Citation_Rate''
       ([(''PMID'', PStr ''8''), (''Citation_Count'', PInt 4)] :: rat pydict) \<and>
   \<not> has_citation_fields ([(''PMID'', PStr ''8''), (''Citation_Count'', PInt 4)] :: rat pydict)"
  by code_simp

lemma fetch_citation_counts_total:
  assumes "\<forall>p \<in> set pubs. \<exists>s. map_of p ''PMID'' = Some (PStr s)"
  shows "\<exists>pubs'. fetch_citation_counts F srv pubs = (None, pubs')"
proof -
  from pmids_of_total [OF assms] obtain vs where
    "pmids_of pubs = Some vs" "\<forall>v \<in> set vs. \<exists>s. v = PStr s" by blast
  with enrich_batches_total [of vs F srv] show ?thesis
    by (simp add: fetch_citation_counts_def)
qed

lemma enrich_batches_append:
  "enrich_batches F srv pmids (is @ js) pubs =
     (case enrich_batches F srv pmids is pubs of
        (Some e, mid) \<Rightarrow> (Some e, mid)
      | (None, mid) \<Rightarrow> enrich_batches F srv pmids js mid)"
  by (induction "is" arbitrary: pubs) (auto split: option.splits)

lemma citation_map_keys:
  "fst ` set (fold (\<lambda>item m. AList.update (item_pmid F item) (cite_data_of item) m) items m0) =
     fst ` set m0 \<union> item_pmid F ` set items"
  by (induction items arbitrary: m0) (auto simp: dom_update)

lemma build_citation_map_miss:
  "t \<notin> item_pmid F ` set items \<Longrightarrow> map_of (build_citation_map F items) t = None"
  by (simp add: build_citation_map_def map_of_eq_None_iff citation_map_keys)

lemma apply_citation_miss:
  "map_of p ''PMID'' = Some (PStr t) \<Longrightarrow> t \<notin> item_pmid F ` set items \<Longrightarrow>
   apply_citation (build_citation_map F items) p =
     set_citation_fields (PStr '''') (PStr '''') (PStr '''') p"
  by (simp add: apply_citation_def lookup_pmid_def build_citation_map_miss)

lemma py_range_step_last:
  assumes "0 < n" "0 < step"
  shows "py_range_step n step =
           py_range_step (((n - 1) div step) * step) step @ [((n - 1) div step) * step]"
proof -
  from assms obtain a s where n: "n = Suc a" and step: "step = Suc s"
    by (metis Suc_pred')
  have m: "(a + step) div step = Suc (a div step)"
    using assms(2) by simp
  have "a div step * step + step - 1 = s + a div step * step"
    unfolding step by simp
  moreover have "(s + a div step * step) div step = a div step"
  proof -
    have "step \<noteq> 0" "s < step" using step by simp_all
    then show ?thesis
      by simp
  qed
  ultimately have "(a div step * step + step - 1) div step = a div step"
    by simp
  with m show ?thesis
    by (simp add: py_range_step_def n)
qed

lemma pmids_of_length: "pmids_of pubs = Some vs \<Longrightarrow> length vs = length pubs"
  by (induction pubs arbitrary: vs) (auto split: option.splits)

text \<open>
  C4 does not hold of the code. The update loop of a successful call (line 203) runs over
  all publications, not over those of the batch: when the last call succeeds, every
  publication whose identifier is not among the items of its reply ends with the three
  explicit empty values, whatever an earlier call had delivered for it.
\<close>

theorem final_reply_overwrites_earlier:
  assumes run: "fetch_citation_counts F srv pubs = (None, pubs')"
    and pm: "pmids_of pubs = Some pmids"
    and ne: "pubs \<noteq> []"
    and ids: "strings_of (take 1000 (drop ((length pubs - 1) div 1000 * 1000) pmids)) = Some ids"
    and reply: "srv ((length pubs - 1) div 1000) (py_join '','' ids) = Status 200 items"
    and n: "n < length pubs"
    and pmid: "map_of (pubs ! n) ''PMID'' = Some (PStr t)"
    and miss: "t \<notin> item_pmid F ` set items"
  shows "citation_values (pubs' ! n) = (PStr '''', PStr '''', PStr '''')"
proof -
  let ?last = "(length pubs - 1) div 1000 * 1000"
  have len: "length pmids = length pubs"
    by (rule pmids_of_length [OF pm])
  have range: "py_range_step (length pmids) icite_batch_size =
                 py_range_step ?last icite_batch_size @ [?last]"
    using ne py_range_step_last [of "length pubs" 1000]
    by (simp add: len icite_batch_size_def)
  from run pm have "enrich_batches F srv pmids
                      (py_range_step ?last icite_batch_size @ [?last]) pubs = (None, pubs')"
    by (simp add: fetch_citation_counts_def range)
  then obtain mid where
    front: "enrich_batches F srv pmids (py_range_step ?last icite_batch_size) pubs = (None, mid)"
    and final: "enrich_batches F srv pmids [?last] mid = (None, pubs')"
    by (auto simp: enrich_batches_append split: prod.splits option.splits)
  from final ids reply have pubs': "pubs' = map (apply_citation (build_citation_map F items)) mid"
    by (simp add: icite_batch_size_def enrich_batch_def)
  from enrich_batches_frame [of pubs F srv pmids "py_range_step ?last icite_batch_size"] front
  have mid: "length mid = length pubs" "unchanged_outside citation_keys (pubs ! n) (mid ! n)"
    using n by (simp_all add: list_all2_conv_all_nth)
  from mid(2) pmid have "map_of (mid ! n) ''PMID'' = Some (PStr t)"
    by (simp add: unchanged_outside_def citation_keys_def)
  from apply_citation_miss [OF this miss] show ?thesis
    using n mid(1) by (simp add: pubs' set_citation_fields_values)
qed

text \<open>
  With 1001 publications and a service that answers both calls with data for every
  identifier asked, the first publication, served by the first call, ends with empty
  citation fields.
\<close>

theorem final_reply_overwrites_earlier_witness:
  "\<exists>pubs'.
     fetch_citation_counts exact_numerics
       (\<lambda>k s. Status 200
          (if k = 0
           then map (\<lambda>n. [(''pmid'', PInt (int n)), (''citation_count'', PInt 5)]) [0..<1000]
           else [[(''pmid'', PInt 1000), (''citation_count'', PInt 5)]]))
       (map (\<lambda>n. [(''PMID'', PStr (str_of_nat n))]) [0..<1001]) = (None, pubs') \<and>
     citation_values (pubs' ! 0) = (PStr '''', PStr '''', PStr '''')"
proof -
  let ?srv = "\<lambda>(k::nat) (s::string). Status 200
          (if k = 0
           then map (\<lambda>n. [(''pmid'', PInt (int n)), (''citation_count'', PInt 5)]) [0..<1000]
           else [[(''pmid'', PInt 1000), (''citation_count'', PInt 5)]]) :: rat icite_response"
  let ?mk = "\<lambda>n. [(''PMID'', PStr (str_of_nat n))] :: rat pydict"
  let ?pubs = "map ?mk [0..<1001]"
  have "\<forall>p \<in> set ?pubs. \<exists>s. map_of p ''PMID'' = Some (PStr s)"
    by auto
  from fetch_citation_counts_total [OF this] obtain pubs' where
    run: "fetch_citation_counts exact_numerics ?srv ?pubs = (None, pubs')"
    by blast
  have pm: "pmids_of (map ?mk ns) = Some (map (\<lambda>n. PStr (str_of_nat n)) ns)" for ns
    by (induction ns) simp_all
  have ids: "strings_of (take 1000 (drop ((length ?pubs - 1) div 1000 * 1000)
               (map (\<lambda>n. PStr (str_of_nat n) :: rat pyval) [0..<1001]))) = Some [str_of_nat 1000]"
    by (simp add: drop_map)
  have reply: "?srv ((length ?pubs - 1) div 1000) (py_join '','' [str_of_nat 1000]) =
                 Status 200 [[(''pmid'', PInt 1000), (''citation_count'', PInt 5)]]"
    by simp
  have "item_pmid exact_numerics ([(''pmid'', PInt 1000), (''citation_count'', PInt 5)] :: rat pydict)
          \<noteq> str_of_nat 0"
    by code_simp
  then have miss: "str_of_nat 0 \<notin> item_pmid exact_numerics `
                     set [[(''pmid'', PInt 1000), (''citation_count'', PInt 5)] :: rat pydict]"
    by auto
  have "citation_values (pubs' ! 0) = (PStr '''', PStr '''', PStr '''')"
    by (rule final_reply_overwrites_earlier [OF run pm _ ids reply _ _ miss]) simp_all
  with run show ?thesis by blast
qed

section \<open>Properties of the record normalizer and the position filter\<close>

text \<open>
  C2 does not hold of the code. The position of the searched author is an index of the raw
  author list, and it is compared with the number of display names, which leaves out every
  entry that has neither initials nor a collective name. Below, the searched author is at
  index 3 of six entries and is the third of the five displayed authors, in neither count
  among the first two or the last two, and the filter keeps the record.
\<close>

theorem position_filter_misplaced_accept:
  "author_position_from 0 (py_upper ''Knowles'')
     [\<lparr>LastName = Some ''Madonna'', Initials = None, CollectiveName = None\<rparr>,
      \<lparr>LastName = Some ''Baker'', Initials = Some ''B'', CollectiveName = None\<rparr>,
      \<lparr>LastName = Some ''Clark'', Initials = Some ''C'', CollectiveName = None\<rparr>,
      \<lparr>LastName = Some ''Knowles'', Initials = Some ''DA'', CollectiveName = None\<rparr>,
      \<lparr>LastName = Some ''Evans'', Initials = Some ''E'', CollectiveName = None\<rparr>,
      \<lparr>LastName = Some ''Fox'', Initials = Some ''F'', CollectiveName = None\<rparr>] = Some 3 \<and>
   display_names
     [\<lparr>LastName = Some ''Madonna'', Initials = None, CollectiveName = None\<rparr>,
      \<lparr>LastName = Some ''Baker'', Initials = Some ''B'', CollectiveName = None\<rparr>,
      \<lparr>LastName = Some ''Clark'', Initials = Some ''C'', CollectiveName = None\<rparr>,
      \<lparr>LastName = Some ''Knowles'', Initials = Some ''DA'', CollectiveName = None\<rparr>,
      \<lparr>LastName = Some ''Evans'', Initials = Some ''E'', CollectiveName = None\<rparr>,
      \<lparr>LastName = Some ''Fox'', Initials = Some ''F'', CollectiveName = None\<rparr>] =
     [''Baker B'', ''Clark C'', ''Knowles DA'', ''Evans E'', ''Fox F''] \<and>
   passes_filter True (py_upper ''Knowles'')
     [\<lparr>LastName = Some ''Madonna'', Initials = None, CollectiveName = None\<rparr>,
      \<lparr>LastName = Some ''Baker'', Initials = Some ''B'', CollectiveName = None\<rparr>,
      \<lparr>LastName = Some ''Clark'', Initials = Some ''C'', CollectiveName = None\<rparr>,
      \<lparr>LastName = Some ''Knowles'', Initials = Some ''DA'', CollectiveName = None\<rparr>,
      \<lparr>LastName = Some ''Evans'', Initials = Some ''E'', CollectiveName = None\<rparr>,
      \<lparr>LastName = Some ''Fox'', Initials = Some ''F'', CollectiveName = None\<rparr>]"
  by code_simp

text \<open>
  C9, as the code has it. A non-empty \<^verbatim>\<open>Year\<close> is the year; with \<^verbatim>\<open>Year\<close> absent or empty,
  the first whitespace-delimited token of a \<^verbatim>\<open>MedlineDate\<close> that has one is the year, and
  with neither field the year is the empty string. Whenever the extraction yields a year,
  a record that has its mandatory fields proceeds with that string under \<^verbatim>\<open>Year\<close>.
\<close>

theorem year_extraction:
  "(or_default (Year pd) '''' \<noteq> [] \<longrightarrow> extract_year pd = Inr (or_default (Year pd) '''')) \<and>
   (or_default (Year pd) '''' = [] \<longrightarrow>
      (\<forall>md token rest. MedlineDate pd = Some md \<and> py_split md = token # rest \<longrightarrow>
         extract_year pd = Inr token) \<and>
      (MedlineDate pd = None \<longrightarrow> extract_year pd = Inr '''')) \<and>
   (\<forall>y citation art jour issue pmid journal_title.
      extract_year pd = Inr y \<and> MedlineCitation record = Some citation \<and>
      Article citation = Some art \<and> Journal art = Some jour \<and> JournalIssue jour = Some issue \<and>
      PubDate issue = Some pd \<and> PMID citation = Some pmid \<and> Title jour = Some journal_title \<longrightarrow>
      (\<exists>pub :: 'f pydict. process_record name False record = Inr (Some pub) \<and>
             map_of pub ''Year'' = Some (PStr y)))"
  by (auto simp: extract_year_def process_record_def passes_filter_def Let_def
      split: option.splits list.splits)

theorem year_extraction_witness:
  "extract_year \<lparr>Year = None, MedlineDate = Some ''2020 Jan-Feb''\<rparr> = Inr ''2020'' \<and>
   (\<exists>pub :: rat pydict.
      process_record ''KNOWLES'' False
        \<lparr>MedlineCitation = Some
           \<lparr>Article = Some
              \<lparr>Journal = Some
                 \<lparr>JournalIssue = Some
                    \<lparr>PubDate = Some \<lparr>Year = None, MedlineDate = Some ''2020 Jan-Feb''\<rparr>\<rparr>,
                  Title = Some ''Nature''\<rparr>,
               ArticleTitle = None, AuthorList = None, Abstract = None\<rparr>,
            PMID = Some ''123''\<rparr>,
         PubmedData = None\<rparr> = Inr (Some pub) \<and>
      map_of pub ''Year'' = Some (PStr ''2020''))"
proof -
  let ?pd = "\<lparr>Year = None, MedlineDate = Some ''2020 Jan-Feb''\<rparr>"
  let ?raw =
    "\<lparr>MedlineCitation = Some
        \<lparr>Article = Some
           \<lparr>Journal = Some \<lparr>JournalIssue = Some \<lparr>PubDate = Some ?pd\<rparr>, Title = Some ''Nature''\<rparr>,
            ArticleTitle = None, AuthorList = None, Abstract = None\<rparr>,
         PMID = Some ''123''\<rparr>,
      PubmedData = None\<rparr>"
  have split: "py_split ''2020 Jan-Feb'' = [''2020'', ''Jan-Feb'']"
    by code_simp
  note inst = year_extraction [where ?'f = rat, of ?pd ?raw "''KNOWLES''"]
  from inst split have year: "extract_year ?pd = Inr ''2020''"
    by (simp add: or_default_def)
  with inst have "\<exists>pub :: rat pydict. process_record ''KNOWLES'' False ?raw = Inr (Some pub) \<and>
                   map_of pub ''Year'' = Some (PStr ''2020'')"
    by simp
  with year show ?thesis by blast
qed

text \<open>
  C9 as stated fails for a \<^verbatim>\<open>MedlineDate\<close> that is present and holds no token: line 81
  indexes the empty result of \<^verbatim>\<open>split()\<close>, the \<^verbatim>\<open>IndexError\<close> is caught at line 155 and
  the record is dropped.
\<close>

theorem year_extraction_counterexample:
  "extract_year \<lparr>Year = None, MedlineDate = Some ''''\<rparr> = Inl IndexError \<and>
   process_record ''KNOWLES'' False
     \<lparr>MedlineCitation = Some
        \<lparr>Article = Some
           \<lparr>Journal = Some
              \<lparr>JournalIssue = Some \<lparr>PubDate = Some \<lparr>Year = None, MedlineDate = Some ''''\<rparr>\<rparr>,
               Title = Some ''Nature''\<rparr>,
            ArticleTitle = Some ''A title'',
            AuthorList = Some [\<lparr>LastName = Some ''Knowles'', Initials = Some ''DA'',
                                CollectiveName = None\<rparr>],
            Abstract = None\<rparr>,
         PMID = Some ''123''\<rparr>,
      PubmedData = None\<rparr> = (Inl IndexError :: exn + rat pydict option) \<and>
   collect_records ''KNOWLES'' False
     [\<lparr>MedlineCitation = Some
        \<lparr>Article = Some
           \<lparr>Journal = Some
              \<lparr>JournalIssue = Some \<lparr>PubDate = Some \<lparr>Year = None, MedlineDate = Some ''''\<rparr>\<rparr>,
               Title = Some ''Nature''\<rparr>,
            ArticleTitle = Some ''A title'',
            AuthorList = Some [\<lparr>LastName = Some ''Knowles'', Initials = Some ''DA'',
                                CollectiveName = None\<rparr>],
            Abstract = None\<rparr>,
         PMID = Some ''123''\<rparr>,
      PubmedData = None\<rparr>] [] = ([] :: rat pydict list)"
  by code_simp

lemma author_position_from_None:
  "author_position_from k name as = None \<longleftrightarrow> (\<forall>a \<in> set as. \<not> last_name_matches name a)"
  by (induction as arbitrary: k) (auto simp: last_name_matches_def split: option.splits)

lemma author_position_from_Some:
  "author_position_from k name as = Some i \<longleftrightarrow>
     k \<le> i \<and> i - k < length as \<and> last_name_matches name (as ! (i - k)) \<and>
     (\<forall>j < i - k. \<not> last_name_matches name (as ! j))"
proof (induction as arbitrary: k)
  case Nil
  then show ?case by simp
next
  case (Cons a as)
  show ?case
  proof (cases "last_name_matches name a")
    case True
    then have "author_position_from k name (a # as) = Some k"
      by (auto simp: last_name_matches_def split: option.splits)
    moreover have "i = k" if "k \<le> i" "\<forall>j < i - k. \<not> last_name_matches name ((a # as) ! j)"
    proof (rule ccontr)
      assume "i \<noteq> k"
      with that(1) have "0 < i - k" by simp
      with that(2) have "\<not> last_name_matches name ((a # as) ! 0)" by blast
      with True show False by simp
    qed
    ultimately show ?thesis using True by auto
  next
    case False
    then have "author_position_from k name (a # as) = author_position_from (Suc k) name as"
      by (auto simp: last_name_matches_def split: option.splits)
    moreover have "(k \<le> i \<and> i - k < length (a # as) \<and> last_name_matches name ((a # as) ! (i - k)) \<and>
        (\<forall>j < i - k. \<not> last_name_matches name ((a # as) ! j))) \<longleftrightarrow>
      (Suc k \<le> i \<and> i - Suc k < length as \<and> last_name_matches name (as ! (i - Suc k)) \<and>
        (\<forall>j < i - Suc k. \<not> last_name_matches name (as ! j)))" (is "?L \<longleftrightarrow> ?R")
    proof
      assume L: ?L
      with False have ne: "i \<noteq> k" by (cases "i = k") auto
      with L obtain d where d: "i - k = Suc d" "i - Suc k = d"
        by (metis Suc_diff_Suc diff_Suc_eq_diff_pred le_neq_implies_less minus_nat.diff_0
            Suc_pred zero_less_diff)
      have "\<not> last_name_matches name (as ! j)" if "j < d" for j
      proof -
        from that d have "Suc j < i - k" by simp
        with L have "\<not> last_name_matches name ((a # as) ! Suc j)" by blast
        then show ?thesis by simp
      qed
      with L ne d show ?R by auto
    next
      assume R: ?R
      then obtain d where d: "i - k = Suc d" "i - Suc k = d"
        by (metis Suc_diff_le diff_Suc_Suc)
      have "\<not> last_name_matches name ((a # as) ! j)" if "j < Suc d" for j
        using that R False d by (cases j) auto
      with R d show ?L by auto
    qed
    ultimately show ?thesis using Cons.IH [of "Suc k"] by simp
  qed
qed

lemma display_names_length:
  "\<forall>a \<in> set as. display_name a \<noteq> None \<Longrightarrow> length (display_names as) = length as"
  by (induction as) (auto simp: display_names_def map_filter_simps split: option.splits)

lemma position_filter_accepts_iff:
  "passes_filter True name as \<longleftrightarrow>
     (\<exists>i < length as. last_name_matches name (as ! i) \<and>
        (\<forall>j < i. \<not> last_name_matches name (as ! j)) \<and>
        (i < 2 \<or> length (display_names as) \<le> i + 2))"
proof (cases "author_position_from 0 name as")
  case None
  then have "\<forall>a \<in> set as. \<not> last_name_matches name a"
    by (simp add: author_position_from_None)
  then have "\<not> (\<exists>i < length as. last_name_matches name (as ! i))"
    by auto
  with None show ?thesis
    by (auto simp: passes_filter_def position_kept_def)
next
  case (Some p)
  then have p: "p < length as" "last_name_matches name (as ! p)"
    "\<forall>j < p. \<not> last_name_matches name (as ! j)"
    by (simp_all add: author_position_from_Some)
  have uniq: "i = p" if "i < length as" "last_name_matches name (as ! i)"
    "\<forall>j < i. \<not> last_name_matches name (as ! j)" for i
    using that p by (meson linorder_neqE_nat)
  have "passes_filter True name as \<longleftrightarrow> (p < 2 \<or> length (display_names as) \<le> p + 2)"
    using Some by (auto simp: passes_filter_def position_kept_def)
  with p uniq show ?thesis by blast
qed

section \<open>Properties of the aggregation pipeline\<close>

lemma collect_records_eq:
  "collect_records name flt records acc = acc @ kept_records name flt records"
  by (induction records arbitrary: acc)
     (auto simp: collect_records_def kept_records_def map_filter_simps
        split: sum.splits option.splits)

lemma fetch_batch_eq:
  "fetch_batch E name flt ids i acc = acc @ batch_records E name flt ids i"
  by (simp add: fetch_batch_def batch_records_def collect_records_eq split: sum.splits)

lemma fold_append_concat: "fold (\<lambda>i acc. acc @ g i) is acc = acc @ concat (map g is)"
  by (induction "is" arbitrary: acc) simp_all

lemma fetch_all_batches_eq:
  "fetch_all_batches E name flt ids =
     concat (map (batch_records E name flt ids) (py_range_step (length ids) fetch_batch_size))"
proof -
  have "fetch_batch E name flt ids = (\<lambda>i acc. acc @ batch_records E name flt ids i)"
    by (intro ext) (rule fetch_batch_eq)
  then show ?thesis
    by (simp add: fetch_all_batches_def fold_append_concat)
qed

lemma process_record_normalized:
  "process_record name flt r = Inr (Some p) \<Longrightarrow> normalized p"
  unfolding process_record_def Let_def
  by (auto simp: normalized_def py_in_def base_fields_def citation_keys_def
      split: option.splits sum.splits if_splits)

lemma kept_records_iff:
  "p \<in> set (kept_records name flt records) \<longleftrightarrow>
     (\<exists>r \<in> set records. process_record name flt r = Inr (Some p))"
  by (induction records)
     (auto simp: kept_records_def map_filter_simps split: sum.splits option.splits)

lemma fetch_all_batches_normalized:
  "p \<in> set (fetch_all_batches E name flt ids) \<Longrightarrow> normalized p"
  by (auto simp: fetch_all_batches_eq batch_records_def kept_records_iff
      split: sum.splits dest: process_record_normalized)

lemma set_py_sort_reverse: "set (py_sort_reverse f xs) = set xs"
  by (simp add: py_sort_reverse_def)

lemma py_sort_reverse_descending:
  "sorted_wrt (\<lambda>a b. f b \<le> f a) (py_sort_reverse f xs)"
proof -
  have "sorted (map f (sort_key f (rev xs)))"
    by simp
  then show ?thesis
    by (simp add: py_sort_reverse_def sorted_wrt_rev sorted_map)
qed

lemma py_sort_reverse_stable:
  "filter (\<lambda>x. f x = k) (py_sort_reverse f xs) = filter (\<lambda>x. f x = k) xs"
  by (simp add: py_sort_reverse_def rev_filter [symmetric] sort_key_stable)

lemma base_fields_py_set: "k \<in> citation_keys \<Longrightarrow> base_fields (py_set k v p) = base_fields p"
  by (induction p) (auto simp: base_fields_def py_set_def)

lemma base_fields_set_citation_fields: "base_fields (set_citation_fields c r f p) = base_fields p"
  by (simp add: set_citation_fields_def base_fields_py_set citation_keys_def)

lemma base_fields_enrich_batch:
  "map base_fields (enrich_batch F r pubs) = map base_fields pubs"
  by (cases r)
     (auto simp: enrich_batch_def apply_citation_def add_empty_citation_def
        base_fields_set_citation_fields split: option.splits)

lemma base_fields_enrich_batches:
  "map base_fields (snd (enrich_batches F srv pmids is pubs)) = map base_fields pubs"
proof (induction "is" arbitrary: pubs)
  case Nil
  then show ?case by simp
next
  case (Cons i "is")
  then show ?case
    by (simp add: base_fields_enrich_batch split: option.splits)
qed

lemma base_fields_fetch_citation_counts:
  "map base_fields (snd (fetch_citation_counts F srv pubs)) = map base_fields pubs"
  by (simp add: fetch_citation_counts_def base_fields_enrich_batches split: option.splits)

lemma map_of_base_fields: "k \<notin> citation_keys \<Longrightarrow> map_of (base_fields p) k = map_of p k"
  by (induction p) (auto simp: base_fields_def)

lemma year_key_base_fields: "year_key (base_fields p) = year_key p"
  by (simp add: year_key_def py_get_def map_of_base_fields citation_keys_def)

lemma year_key_py_set: "k \<noteq> ''Year'' \<Longrightarrow> year_key (py_set k v p) = year_key p"
  by (simp add: year_key_def py_get_py_set)

lemma normalized_year: "normalized p \<Longrightarrow> map_of p ''Year'' = Some (PStr (year_key p))"
  by (auto simp: normalized_def year_key_def py_get_def)

lemma pipeline_result:
  assumes "py_split author = name # rest"
    and "esearch E (build_term author sy ey) = Inr ids"
  shows "\<exists>pubs. fetch_author_publications F E author sy ey flt = Inr pubs \<and>
           map base_fields pubs =
             py_sort_reverse year_key (fetch_all_batches E (py_upper name) flt ids)"
proof (cases "ids = []")
  case True
  then have "fetch_all_batches E (py_upper name) flt ids = []"
    by (simp add: fetch_all_batches_def py_range_step_def fetch_batch_size_def)
  with True assms show ?thesis
    by (simp add: fetch_author_publications_def py_sort_reverse_def)
next
  case False
  let ?sorted = "py_sort_reverse year_key (fetch_all_batches E (py_upper name) flt ids)"
  have norm: "\<forall>p \<in> set ?sorted. normalized p"
    by (simp add: set_py_sort_reverse fetch_all_batches_normalized)
  then have "\<forall>p \<in> set ?sorted. \<exists>s. map_of p ''PMID'' = Some (PStr s)"
    by (simp add: normalized_def)
  from fetch_citation_counts_total [OF this] obtain pubs where
    run: "fetch_citation_counts F (icite E) ?sorted = (None, pubs)"
    by blast
  have "map base_fields ?sorted = ?sorted"
    using norm by (simp add: map_idI normalized_def)
  with base_fields_fetch_citation_counts [of F "icite E" ?sorted] run
  have "map base_fields pubs = ?sorted" by simp
  with run False assms show ?thesis
    by (simp add: fetch_author_publications_def Let_def)
qed

lemma pipeline_returns_cases:
  assumes "fetch_author_publications F E author sy ey flt = Inr pubs"
  obtains name rest ids where "py_split author = name # rest"
    and "esearch E (build_term author sy ey) = Inr ids"
  using assms unfolding fetch_author_publications_def Let_def
  by (auto split: list.splits sum.splits)

text \<open>
  C5. Whenever the pipeline returns, the returned sequence is in descending order of the
  \<^verbatim>\<open>Year\<close> strings under lexicographic comparison, it stays so when the web boundary
  runs the imputer over it, and the sort is stable: for every
  year, the returned publications of that year are, field for field but for the citation
  fields added later, the publications of that year in the order in which the batches
  produced them.
\<close>

theorem pipeline_sorted_by_year:
  assumes "fetch_author_publications F E author sy ey flt = Inr pubs"
  shows "sorted_wrt (\<lambda>p q. year_key q \<le> year_key p) pubs \<and>
         sorted_wrt (\<lambda>p q. year_key q \<le> year_key p) (compute_imputed_metrics F now_year pubs) \<and>
         (\<forall>p \<in> set pubs. map_of p ''Year'' = Some (PStr (year_key p))) \<and>
         (\<exists>name rest ids.
            py_split author = name # rest \<and> esearch E (build_term author sy ey) = Inr ids \<and>
            (\<forall>y. map base_fields (filter (\<lambda>p. year_key p = y) pubs) =
                  filter (\<lambda>p. year_key p = y) (fetch_all_batches E (py_upper name) flt ids)))"
proof -
  from assms obtain name rest ids where
    split: "py_split author = name # rest" and search: "esearch E (build_term author sy ey) = Inr ids"
    by (rule pipeline_returns_cases)
  let ?all = "fetch_all_batches E (py_upper name) flt ids"
  from pipeline_result [OF split search, of F flt] assms
  have base: "map base_fields pubs = py_sort_reverse year_key ?all"
    by simp
  have keys: "map year_key pubs = map year_key (py_sort_reverse year_key ?all)"
  proof -
    have "map year_key pubs = map year_key (map base_fields pubs)"
      by (simp add: year_key_base_fields)
    with base show ?thesis by simp
  qed
  have "sorted_wrt (\<lambda>a b. b \<le> a) (map year_key (py_sort_reverse year_key ?all))"
    using py_sort_reverse_descending [of year_key ?all] by (simp add: sorted_wrt_map)
  then have sorted: "sorted_wrt (\<lambda>p q. year_key q \<le> year_key p) pubs"
    by (simp add: keys [symmetric] sorted_wrt_map)
  have year: "map_of p ''Year'' = Some (PStr (year_key p))" if "p \<in> set pubs" for p
  proof -
    from that have "base_fields p \<in> set (py_sort_reverse year_key ?all)"
      using base by (metis image_eqI set_map)
    then have "normalized (base_fields p)"
      by (simp add: set_py_sort_reverse fetch_all_batches_normalized)
    from normalized_year [OF this] show ?thesis
      by (simp add: year_key_base_fields map_of_base_fields citation_keys_def)
  qed
  have stable: "map base_fields (filter (\<lambda>p. year_key p = y) pubs) =
                  filter (\<lambda>p. year_key p = y) ?all" for y
  proof -
    have "map base_fields (filter (\<lambda>p. year_key p = y) pubs) =
            filter (\<lambda>p. year_key p = y) (map base_fields pubs)"
      by (simp add: filter_map comp_def year_key_base_fields)
    then show ?thesis
      by (simp add: base py_sort_reverse_stable)
  qed
  have "sorted_wrt (\<lambda>p q. year_key q \<le> year_key p) (compute_imputed_metrics F now_year pubs)"
    using sorted by (simp add: compute_imputed_metrics_def sorted_wrt_map year_key_py_set)
  with sorted year stable split search show ?thesis by blast
qed

theorem pipeline_sorted_by_year_witness:
  "\<exists>pubs.
     fetch_author_publications exact_numerics
       \<lparr>esearch = (\<lambda>t. Inr [''1'', ''2'', ''3'']),
        efetch = (\<lambda>k s. Inr [example_record ''1'' ''2019'', example_record ''2'' ''2021'',
                              example_record ''3'' ''2019'']),
        icite = (\<lambda>k s. Raised)\<rparr>
       ''Knowles DA'' None None True = Inr pubs \<and>
     map (\<lambda>p. (py_get p ''PMID'' PNone, py_get p ''Year'' PNone)) pubs =
       [(PStr ''2'', PStr ''2021''), (PStr ''1'', PStr ''2019''), (PStr ''3'', PStr ''2019'')] \<and>
     sorted_wrt (\<lambda>p q. year_key q \<le> year_key p) pubs"
proof -
  let ?E = "\<lparr>esearch = (\<lambda>t. Inr [''1'', ''2'', ''3'']),
        efetch = (\<lambda>k s. Inr [example_record ''1'' ''2019'', example_record ''2'' ''2021'',
                              example_record ''3'' ''2019'']),
        icite = (\<lambda>k s. Raised)\<rparr> :: rat services"
  have "map_sum id (map (\<lambda>p. (py_get p ''PMID'' PNone, py_get p ''Year'' PNone)))
          (fetch_author_publications exact_numerics ?E ''Knowles DA'' None None True) =
        Inr [(PStr ''2'', PStr ''2021''), (PStr ''1'', PStr ''2019''), (PStr ''3'', PStr ''2019'')]"
    by code_simp
  then obtain pubs where
    run: "fetch_author_publications exact_numerics ?E ''Knowles DA'' None None True = Inr pubs"
    and shown: "map (\<lambda>p. (py_get p ''PMID'' PNone, py_get p ''Year'' PNone)) pubs =
       [(PStr ''2'', PStr ''2021''), (PStr ''1'', PStr ''2019''), (PStr ''3'', PStr ''2019'')]"
    by (cases "fetch_author_publications exact_numerics ?E ''Knowles DA'' None None True") auto
  from pipeline_sorted_by_year [OF run]
  have "sorted_wrt (\<lambda>p q. year_key q \<le> year_key p) pubs"
    by blast
  with run shown show ?thesis
    by (intro exI [of _ pubs]) simp
qed

text \<open>
  C7. When the search succeeds and the detail fetch of one batch raises, the pipeline
  still returns; what it returns is what it would return had that fetch delivered no
  records; and every record of a batch whose fetch succeeded that the normalizer and the
  filter keep is in the returned sequence.
\<close>

theorem failed_batch_is_skipped:
  assumes "py_split author = name # rest"
    and "esearch E (build_term author sy ey) = Inr ids"
    and "k * 100 < length ids"
    and "efetch E k (batch_ids ids k) = Inl e"
  shows "\<exists>pubs.
           fetch_author_publications F E author sy ey flt = Inr pubs \<and>
           fetch_author_publications F
             (E\<lparr>efetch := (efetch E)(k := (efetch E k)(batch_ids ids k := Inr []))\<rparr>)
             author sy ey flt = Inr pubs \<and>
           (\<forall>j records r p.
              j * 100 < length ids \<and> efetch E j (batch_ids ids j) = Inr records \<and>
              r \<in> set records \<and> process_record (py_upper name) flt r = Inr (Some p) \<longrightarrow>
              (\<exists>q \<in> set pubs. base_fields q = p))"
proof -
  let ?E = "E\<lparr>efetch := (efetch E)(k := (efetch E k)(batch_ids ids k := Inr []))\<rparr>"
  let ?all = "fetch_all_batches E (py_upper name) flt ids"
  from pipeline_result [OF assms(1,2), of F flt] obtain pubs where
    run: "fetch_author_publications F E author sy ey flt = Inr pubs"
    and base: "map base_fields pubs = py_sort_reverse year_key ?all"
    by blast
  have "fetch_batch ?E (py_upper name) flt ids i acc = fetch_batch E (py_upper name) flt ids i acc"
    for i acc
    using assms(4) by (simp add: fetch_batch_def collect_records_def)
  then have "fetch_batch ?E (py_upper name) flt ids = fetch_batch E (py_upper name) flt ids"
    by (intro ext)
  with assms(1,2)
  have same: "fetch_author_publications F ?E author sy ey flt =
                fetch_author_publications F E author sy ey flt"
    by (simp add: fetch_author_publications_def fetch_all_batches_def Let_def)
  have present: "\<exists>q \<in> set pubs. base_fields q = p"
    if j: "j * 100 < length ids" and ok: "efetch E j (batch_ids ids j) = Inr records"
      and r: "r \<in> set records" "process_record (py_upper name) flt r = Inr (Some p)"
    for j records r p
  proof -
    have "j < (length ids + fetch_batch_size - 1) div fetch_batch_size"
      using j by (simp add: fetch_batch_size_def)
    then have "j * fetch_batch_size \<in> set (py_range_step (length ids) fetch_batch_size)"
      by (auto simp: py_range_step_def)
    moreover have "p \<in> set (batch_records E (py_upper name) flt ids (j * fetch_batch_size))"
      using ok r by (auto simp: batch_records_def batch_ids_def kept_records_iff fetch_batch_size_def)
    ultimately have "p \<in> set ?all"
      by (auto simp: fetch_all_batches_eq)
    then have "p \<in> set (map base_fields pubs)"
      by (simp add: base set_py_sort_reverse)
    then show ?thesis by auto
  qed
  from run same present show ?thesis by auto
qed

theorem failed_batch_is_skipped_witness:
  "\<exists>pubs.
     fetch_author_publications exact_numerics
       \<lparr>esearch = (\<lambda>t. Inr (map str_of_nat [1..<102])),
        efetch = (\<lambda>k s. if k = 0 then Inl (RemoteError ''timed out'')
                         else Inr [example_record ''101'' ''2020'']),
        icite = (\<lambda>k s. Raised)\<rparr>
       ''Knowles DA'' None None True = Inr pubs \<and>
     (\<exists>q \<in> set pubs. base_fields q = example_publication ''101'' ''2020'')"
proof -
  let ?E = "\<lparr>esearch = (\<lambda>t. Inr (map str_of_nat [1..<102])),
        efetch = (\<lambda>k s. if k = 0 then Inl (RemoteError ''timed out'')
                         else Inr [example_record ''101'' ''2020'']),
        icite = (\<lambda>k s. Raised)\<rparr> :: rat services"
  let ?ids = "map str_of_nat [1..<102]"
  have split: "py_split ''Knowles DA'' = ''Knowles'' # [''DA'']"
    by code_simp
  have norm: "process_record (py_upper ''Knowles'') True (example_record ''101'' ''2020'') =
          Inr (Some (example_publication ''101'' ''2020'' :: rat pydict))"
    by code_simp
  from failed_batch_is_skipped
    [of "''Knowles DA''" "''Knowles''" "[''DA'']" ?E None None ?ids 0 "RemoteError ''timed out''"
        exact_numerics True, OF split]
  obtain pubs where
    run: "fetch_author_publications exact_numerics ?E ''Knowles DA'' None None True = Inr pubs"
    and present: "\<And>j records r p.
              j * 100 < length ?ids \<Longrightarrow> efetch ?E j (batch_ids ?ids j) = Inr records \<Longrightarrow>
              r \<in> set records \<Longrightarrow>
              process_record (py_upper ''Knowles'') True r = Inr (Some p) \<Longrightarrow>
              (\<exists>q \<in> set pubs. base_fields q = p)"
    by (auto simp del: upt_rec_numeral)
  have "\<exists>q \<in> set pubs. base_fields q = example_publication ''101'' ''2020''"
    by (rule present [of 1 "[example_record ''101'' ''2020'']" "example_record ''101'' ''2020''"])
       (simp_all add: norm)
  with run show ?thesis
    by (intro exI [of _ pubs]) simp
qed

lemma split_ws_pending: "cur \<noteq> [] \<Longrightarrow> split_ws cur s \<noteq> []"
  by (induction s arbitrary: cur) auto

lemma split_ws_token: "\<exists>c \<in> set s. \<not> py_isspace c \<Longrightarrow> split_ws cur s \<noteq> []"
  by (induction s arbitrary: cur) (auto simp: split_ws_pending)

lemma py_strip_token:
  assumes "py_strip s \<noteq> []"
  shows "py_split (py_strip s) \<noteq> []"
proof -
  let ?t = "dropWhile py_isspace (rev (dropWhile py_isspace s))"
  from assms have ne: "?t \<noteq> []"
    by (simp add: py_strip_def)
  then have "\<not> py_isspace (hd ?t)"
    by (rule hd_dropWhile)
  moreover from ne have "hd ?t \<in> set (py_strip s)"
    by (simp add: py_strip_def)
  ultimately show ?thesis
    unfolding py_split_def by (intro split_ws_token) blast
qed

text \<open>
  C8. When the search raises, \<^verbatim>\<open>fetch_author_publications\<close> raises the same exception and
  returns no list; the route \<^verbatim>\<open>/results\<close> catches it and answers with the error page
  instead of the page of publications.
\<close>

theorem search_failure_propagates:
  "(py_split author \<noteq> [] \<and> esearch E (build_term author sy ey) = Inl e \<longrightarrow>
      fetch_author_publications F E author sy ey flt = Inl e) \<and>
   (py_strip (arg args ''author'' '''') = author \<and> author \<noteq> [] \<and>
    year_arg F (py_strip (arg args ''start_year'' '''')) = Inr sy \<and>
    year_arg F (py_strip (arg args ''end_year'' '''')) = Inr ey \<and>
    esearch E (build_term author sy ey) = Inl e \<longrightarrow>
      results F E now_year args = Error_Page e)"
proof -
  have fetch: "fetch_author_publications F E author sy ey flt = Inl e"
    if "py_split author \<noteq> []" "esearch E (build_term author sy ey) = Inl e" for flt
    using that by (simp add: fetch_author_publications_def Let_def split: list.splits)
  have "results F E now_year args = Error_Page e"
    if a: "py_strip (arg args ''author'' '''') = author" "author \<noteq> []"
      and y: "year_arg F (py_strip (arg args ''start_year'' '''')) = Inr sy"
        "year_arg F (py_strip (arg args ''end_year'' '''')) = Inr ey"
      and s: "esearch E (build_term author sy ey) = Inl e"
  proof -
    from a have "py_split author \<noteq> []"
      using py_strip_token [of "arg args ''author'' ''''"] by simp
    from fetch [OF this s] a y show ?thesis
      by (simp add: results_def Let_def)
  qed
  with fetch show ?thesis by blast
qed

theorem search_failure_propagates_witness:
  "fetch_author_publications exact_numerics
     \<lparr>esearch = (\<lambda>t. Inl (RemoteError ''HTTP Error 500'')), efetch = (\<lambda>k s. Inr []),
      icite = (\<lambda>k s. Raised)\<rparr>
     ''Knowles DA'' None None True = Inl (RemoteError ''HTTP Error 500'') \<and>
   results exact_numerics
     \<lparr>esearch = (\<lambda>t. Inl (RemoteError ''HTTP Error 500'')), efetch = (\<lambda>k s. Inr []),
      icite = (\<lambda>k s. Raised)\<rparr>
     2025 [(''author'', '' Knowles DA '')] = Error_Page (RemoteError ''HTTP Error 500'')"
proof -
  let ?E = "\<lparr>esearch = (\<lambda>t. Inl (RemoteError ''HTTP Error 500'')), efetch = (\<lambda>k s. Inr []),
      icite = (\<lambda>k s. Raised)\<rparr> :: rat services"
  let ?args = "[(''author'', '' Knowles DA '')]"
  have author: "py_strip (arg ?args ''author'' '''') = ''Knowles DA''"
    by code_simp
  have split: "py_split ''Knowles DA'' \<noteq> []"
    by code_simp
  have years: "year_arg exact_numerics (py_strip (arg ?args ''start_year'' '''')) = Inr None"
    "year_arg exact_numerics (py_strip (arg ?args ''end_year'' '''')) = Inr None"
    by code_simp+
  from search_failure_propagates
    [of "''Knowles DA''" ?E None None "RemoteError ''HTTP Error 500''" exact_numerics True ?args 2025]
    author split years
  show ?thesis by simp
qed

end
